theory Spec2Isabelle
  imports Main "HOL-Library.Word" "HOL-Library.AList" "HOL-Library.Multiset"
begin

section \<open>Records and versions (config.go)\<close>

text \<open>
  A \<open>Config\<close> carries a type name, an identifier, a \<open>uint64\<close> version and an opaque
  payload (\<open>interface{}\<close>, possibly \<open>nil\<close>). A \<open>Tombstone\<close> carries the same identity
  and version without a payload. Versions are compared as unsigned 64-bit integers,
  which is the order of \<^typ>\<open>64 word\<close>. The fields of a tombstone are \<open>tombType\<close>,
  \<open>tombID\<close> and \<open>tombVersion\<close>, since the two structs share their field names. Both
  structs are immutable once built, so a pointer to one is modelled by its value, and the
  pointers stored in maps and lists are never \<open>nil\<close>.
\<close>

record 'd Config =
  Type :: string
  ID :: string
  Version :: "64 word"
  Data :: "'d option"

record Tombstone =
  tombType :: string
  tombID :: string
  tombVersion :: "64 word"

definition Config_Tombstone :: "'d Config \<Rightarrow> Tombstone" where
  "Config_Tombstone config =
     \<lparr>tombType = Type config, tombID = ID config, tombVersion = Version config\<rparr>"

section \<open>Go maps\<close>

text \<open>
  A Go \<open>map[string]V\<close> is given by its entries, listed in the order in which a
  \<open>range\<close> statement visits them; a key occurs at most once. A map-typed field may also
  be \<open>nil\<close>, which is \<open>None\<close> here: reading a \<open>nil\<close> map finds nothing and ranging over
  it visits nothing, while writing to it is only done by the source after \<open>make\<close>.
  Storing under a key that is present replaces the value in place and storing under a new
  key adds an entry (\<open>AList.update\<close>); \<open>delete\<close> removes the entry (\<open>AList.delete\<close>).
  The order of a Go map is not fixed by the language: every statement below holds for
  every order of the entries, since the lists are arbitrary.
\<close>

type_synonym 'v gomap = "(string \<times> 'v) list"

definition gomap_get :: "'v gomap option \<Rightarrow> string \<Rightarrow> 'v option" where
  "gomap_get m k = (case m of None \<Rightarrow> None | Some al \<Rightarrow> map_of al k)"

definition gomap_range :: "'v gomap option \<Rightarrow> 'v list" where
  "gomap_range m = (case m of None \<Rightarrow> [] | Some al \<Rightarrow> map snd al)"

definition gomap_entries :: "'v gomap option \<Rightarrow> (string \<times> 'v) list" where
  "gomap_entries m = (case m of None \<Rightarrow> [] | Some al \<Rightarrow> al)"

section \<open>TypeConfigs: the per-type store\<close>

record 'd ConfigResult =
  Config :: "'d Config option"
  Tombstone :: "Tombstone option"

record 'd TypeConfigs =
  Configs :: "'d Config gomap option"
  Tombstones :: "Tombstone gomap option"

definition TypeConfigs_Get :: "'d TypeConfigs \<Rightarrow> string \<Rightarrow> 'd ConfigResult \<times> bool" where
  "TypeConfigs_Get configs i =
     (case gomap_get (Configs configs) i of
        Some config \<Rightarrow> (\<lparr>Config = Some config, Tombstone = None\<rparr>, True)
      | None \<Rightarrow>
         (case gomap_get (Tombstones configs) i of
            Some tombstone \<Rightarrow> (\<lparr>Config = None, Tombstone = Some tombstone\<rparr>, True)
          | None \<Rightarrow> (\<lparr>Config = None, Tombstone = None\<rparr>, False)))"

definition isNewConfig :: "'d TypeConfigs \<Rightarrow> string \<Rightarrow> 64 word \<Rightarrow> bool" where
  "isNewConfig configs i version =
     (case gomap_get (Configs configs) i of
        Some config \<Rightarrow> version > Version config
      | None \<Rightarrow>
         (case gomap_get (Tombstones configs) i of
            Some tombstone \<Rightarrow> version > tombVersion tombstone
          | None \<Rightarrow> True))"

definition isNewTombstone :: "'d TypeConfigs \<Rightarrow> string \<Rightarrow> 64 word \<Rightarrow> bool" where
  "isNewTombstone configs i version =
     (case gomap_get (Configs configs) i of
        Some config \<Rightarrow> version \<ge> Version config
      | None \<Rightarrow>
         (case gomap_get (Tombstones configs) i of
            Some tombstone \<Rightarrow> version > tombVersion tombstone
          | None \<Rightarrow> True))"

text \<open>
  \<open>NewConfig\<close> and \<open>DeadConfig\<close> mutate the receiver; the model returns the updated
  store together with the two results \<open>(oldConfig, isNew)\<close> of the source.
\<close>

definition TypeConfigs_NewConfig ::
  "'d TypeConfigs \<Rightarrow> 'd Config \<Rightarrow> 'd TypeConfigs \<times> 'd Config option \<times> bool" where
  "TypeConfigs_NewConfig configs config =
     (if \<not> isNewConfig configs (ID config) (Version config) then (configs, None, False)
      else
        let (live, oldConfig) =
              (case Configs configs of
                 None \<Rightarrow> ([], None)
               | Some al \<Rightarrow> (al, map_of al (ID config)));
            live' = AList.update (ID config) config live;
            dead' = map_option (AList.delete (ID config)) (Tombstones configs)
        in (\<lparr>Configs = Some live', Tombstones = dead'\<rparr>, oldConfig, True))"

definition TypeConfigs_DeadConfig ::
  "'d TypeConfigs \<Rightarrow> Tombstone \<Rightarrow> 'd TypeConfigs \<times> 'd Config option \<times> bool" where
  "TypeConfigs_DeadConfig configs tombstone =
     (if \<not> isNewTombstone configs (tombID tombstone) (tombVersion tombstone)
      then (configs, None, False)
      else
        let dead = (case Tombstones configs of None \<Rightarrow> [] | Some al \<Rightarrow> al);
            dead' = AList.update (tombID tombstone) tombstone dead;
            (live', oldConfig) =
              (case Configs configs of
                 None \<Rightarrow> (None, None)
               | Some al \<Rightarrow>
                   (Some (AList.delete (tombID tombstone) al), map_of al (tombID tombstone)))
        in (\<lparr>Configs = live', Tombstones = Some dead'\<rparr>, oldConfig, True))"

text \<open>
  \<open>Merge\<close> ranges over the live configs of \<open>other\<close> and then over its tombstones,
  collecting the entries whose insertion reported \<open>isNew\<close>.
\<close>

fun Merge_live :: "'d TypeConfigs \<Rightarrow> 'd Config list \<Rightarrow> 'd TypeConfigs \<times> 'd Config list" where
  "Merge_live configs [] = (configs, [])"
| "Merge_live configs (config # rest) =
     (let (configs', _, isNew) = TypeConfigs_NewConfig configs config;
          (configs'', newConfigs) = Merge_live configs' rest
      in (configs'', if isNew then config # newConfigs else newConfigs))"

fun Merge_dead :: "'d TypeConfigs \<Rightarrow> Tombstone list \<Rightarrow> 'd TypeConfigs \<times> Tombstone list" where
  "Merge_dead configs [] = (configs, [])"
| "Merge_dead configs (tombstone # rest) =
     (let (configs', _, isNew) = TypeConfigs_DeadConfig configs tombstone;
          (configs'', deadConfigs) = Merge_dead configs' rest
      in (configs'', if isNew then tombstone # deadConfigs else deadConfigs))"

definition TypeConfigs_Merge ::
  "'d TypeConfigs \<Rightarrow> 'd TypeConfigs \<Rightarrow> 'd TypeConfigs \<times> 'd Config list \<times> Tombstone list" where
  "TypeConfigs_Merge configs other =
     (let (configs', newConfigs) = Merge_live configs (gomap_range (Configs other));
          (configs'', deadConfigs) = Merge_dead configs' (gomap_range (Tombstones other))
      in (configs'', newConfigs, deadConfigs))"

text \<open>\<open>Diff\<close> only reads the receiver.\<close>

definition TypeConfigs_Diff ::
  "'d TypeConfigs \<Rightarrow> 'd TypeConfigs \<Rightarrow> 'd Config list \<times> Tombstone list" where
  "TypeConfigs_Diff configs other =
     (filter (\<lambda>config. isNewConfig configs (ID config) (Version config))
        (gomap_range (Configs other)),
      filter (\<lambda>tombstone. isNewTombstone configs (tombID tombstone) (tombVersion tombstone))
        (gomap_range (Tombstones other)))"

text \<open>
  \<open>Copy\<close> builds fresh maps, and only for non-empty fields. Live configs are stored
  under the key they had; tombstones are stored under their own \<open>ID\<close>.
\<close>

definition TypeConfigs_Copy :: "'d TypeConfigs \<Rightarrow> 'd TypeConfigs" where
  "TypeConfigs_Copy configs =
     \<lparr>Configs =
        (case Configs configs of
           None \<Rightarrow> None
         | Some al \<Rightarrow>
             if length al > 0
             then Some (foldl (\<lambda>m (i, config). AList.update i config m) [] al)
             else None),
      Tombstones =
        (case Tombstones configs of
           None \<Rightarrow> None
         | Some al \<Rightarrow>
             if length al > 0
             then Some (foldl (\<lambda>m tombstone. AList.update (tombID tombstone) tombstone m) []
                          (map snd al))
             else None)\<rparr>"

definition TypeConfigs_Len :: "'d TypeConfigs \<Rightarrow> nat" where
  "TypeConfigs_Len configs =
     length (gomap_entries (Configs configs)) + length (gomap_entries (Tombstones configs))"

subsection \<open>Wire form of a TypeConfigs\<close>

text \<open>
  \<open>UnmarshalJSON\<close> first decodes the body into two arrays with \<open>json.Unmarshal\<close>
  (the decoder is a parameter here) and then builds the two maps, refusing an \<open>ID\<close>
  that occurs twice in the same array.
\<close>

record 'd configsJSON =
  live :: "'d Config list"
  dead :: "Tombstone list"

datatype 'd unmarshal_error =
    JSONError string
  | DuplicateConfig "'d Config"
  | DuplicateTombstone Tombstone

fun unmarshal_live :: "'d Config gomap \<Rightarrow> 'd Config list \<Rightarrow> 'd unmarshal_error + 'd Config gomap" where
  "unmarshal_live m [] = Inr m"
| "unmarshal_live m (config # rest) =
     (if map_of m (ID config) \<noteq> None then Inl (DuplicateConfig config)
      else unmarshal_live (AList.update (ID config) config m) rest)"

fun unmarshal_dead :: "Tombstone gomap \<Rightarrow> Tombstone list \<Rightarrow> 'd unmarshal_error + Tombstone gomap" where
  "unmarshal_dead m [] = Inr m"
| "unmarshal_dead m (tombstone # rest) =
     (if map_of m (tombID tombstone) \<noteq> None then Inl (DuplicateTombstone tombstone)
      else unmarshal_dead (AList.update (tombID tombstone) tombstone m) rest)"

definition TypeConfigs_UnmarshalJSON ::
  "(string \<Rightarrow> string + 'd configsJSON) \<Rightarrow> string \<Rightarrow> 'd unmarshal_error + 'd TypeConfigs" where
  "TypeConfigs_UnmarshalJSON json_Unmarshal body =
     (case json_Unmarshal body of
        Inl err \<Rightarrow> Inl (JSONError err)
      | Inr configsJSON \<Rightarrow>
          (case unmarshal_live [] (live configsJSON) of
             Inl err \<Rightarrow> Inl err
           | Inr cs \<Rightarrow>
               (case unmarshal_dead [] (dead configsJSON) of
                  Inl err \<Rightarrow> Inl err
                | Inr ts \<Rightarrow> Inr \<lparr>Configs = Some cs, Tombstones = Some ts\<rparr>)))"

section \<open>Configs: the store of all types\<close>

text \<open>
  In this part a \<open>Configs\<close> is the value of the whole store, the per-type stores
  included, and a mutating method returns the new value. This is what the source does
  whenever the receiver and the argument are different objects, as they are when the
  receiver is a fresh copy. The router, which works on copies behind pointers, is
  modelled on a heap further below.
\<close>

record 'd Configs =
  Types :: "'d TypeConfigs gomap option"

definition Configs_Copy :: "'d Configs \<Rightarrow> 'd Configs" where
  "Configs_Copy configs =
     (case Types configs of
        None \<Rightarrow> \<lparr>Types = Some []\<rparr>
      | Some al \<Rightarrow>
          if length al = 0 then \<lparr>Types = Some []\<rparr>
          else \<lparr>Types = Some (foldl (\<lambda>m (typ, state). AList.update typ (TypeConfigs_Copy state) m)
                                [] al)\<rparr>)"

text \<open>
  \<open>getState\<close> allocates the type map and an empty per-type store on demand and returns
  a pointer to the per-type store. The model returns the updated \<open>Configs\<close> and the
  store found; \<open>putState\<close> is the write through that pointer.
\<close>

definition getState :: "'d Configs \<Rightarrow> string \<Rightarrow> 'd Configs \<times> 'd TypeConfigs" where
  "getState configs typ =
     (let types = (case Types configs of None \<Rightarrow> [] | Some al \<Rightarrow> al)
      in case map_of types typ of
           Some state \<Rightarrow> (\<lparr>Types = Some types\<rparr>, state)
         | None \<Rightarrow>
             (\<lparr>Types = Some (AList.update typ \<lparr>Configs = None, Tombstones = None\<rparr> types)\<rparr>,
              \<lparr>Configs = None, Tombstones = None\<rparr>))"

definition putState :: "'d Configs \<Rightarrow> string \<Rightarrow> 'd TypeConfigs \<Rightarrow> 'd Configs" where
  "putState configs typ state =
     \<lparr>Types = Some (AList.update typ state (gomap_entries (Types configs)))\<rparr>"

definition Configs_Get :: "'d Configs \<Rightarrow> string \<Rightarrow> string \<Rightarrow> 'd ConfigResult \<times> bool" where
  "Configs_Get configs typ i =
     (case gomap_get (Types configs) typ of
        Some state \<Rightarrow> TypeConfigs_Get state i
      | None \<Rightarrow> (\<lparr>Config = None, Tombstone = None\<rparr>, False))"

definition Configs_NewConfig ::
  "'d Configs \<Rightarrow> 'd Config \<Rightarrow> 'd Configs \<times> 'd Config option \<times> bool" where
  "Configs_NewConfig configs config =
     (let (configs', state) = getState configs (Type config);
          (state', oldConfig, isNew) = TypeConfigs_NewConfig state config
      in (putState configs' (Type config) state', oldConfig, isNew))"

definition Configs_DeadConfig ::
  "'d Configs \<Rightarrow> Tombstone \<Rightarrow> 'd Configs \<times> 'd Config option \<times> bool" where
  "Configs_DeadConfig configs tombstone =
     (let (configs', state) = getState configs (tombType tombstone);
          (state', oldConfig, isNew) = TypeConfigs_DeadConfig state tombstone
      in (putState configs' (tombType tombstone) state', oldConfig, isNew))"

fun Merge_types ::
  "'d Configs \<Rightarrow> (string \<times> 'd TypeConfigs) list \<Rightarrow> 'd Configs \<times> 'd Config list \<times> Tombstone list" where
  "Merge_types configs [] = (configs, [], [])"
| "Merge_types configs ((typ, state) # rest) =
     (let (configs1, mine) = getState configs typ;
          (mine', live, dead) = TypeConfigs_Merge mine state;
          (configs2, newConfigs, deadConfigs) = Merge_types (putState configs1 typ mine') rest
      in (configs2, live @ newConfigs, dead @ deadConfigs))"

definition Configs_Merge ::
  "'d Configs \<Rightarrow> 'd Configs \<Rightarrow> 'd Configs \<times> 'd Config list \<times> Tombstone list" where
  "Configs_Merge configs other = Merge_types configs (gomap_entries (Types other))"

fun Diff_types ::
  "'d Configs \<Rightarrow> (string \<times> 'd TypeConfigs) list \<Rightarrow> 'd Configs \<times> 'd Config list \<times> Tombstone list" where
  "Diff_types configs [] = (configs, [], [])"
| "Diff_types configs ((typ, state) # rest) =
     (let (configs1, mine) = getState configs typ;
          (live, dead) = TypeConfigs_Diff mine state;
          (configs2, newConfigs, deadConfigs) = Diff_types configs1 rest
      in (configs2, live @ newConfigs, dead @ deadConfigs))"

definition Configs_Diff ::
  "'d Configs \<Rightarrow> 'd Configs \<Rightarrow> 'd Configs \<times> 'd Config list \<times> Tombstone list" where
  "Configs_Diff configs other = Diff_types configs (gomap_entries (Types other))"

definition Configs_ConfigArray :: "'d Configs \<Rightarrow> 'd Config list" where
  "Configs_ConfigArray configs =
     concat (map (\<lambda>state. gomap_range (Configs state)) (gomap_range (Types configs)))"

definition Configs_TombstoneArray :: "'d Configs \<Rightarrow> Tombstone list" where
  "Configs_TombstoneArray configs =
     concat (map (\<lambda>state. gomap_range (Tombstones state)) (gomap_range (Types configs)))"

section \<open>Data invariants and views used in the statements\<close>

text \<open>
  The field comments of \<open>TypeConfigs\<close> state its invariant: the live map takes a config
  \<open>ID\<close> to the config, the tombstone map takes an \<open>ID\<close> to the tombstone, and an \<open>ID\<close>
  present in one map is not present in the other. Being a Go map, each field has at
  most one entry per key.
\<close>

definition TypeConfigs_inv :: "'d TypeConfigs \<Rightarrow> bool" where
  "TypeConfigs_inv configs \<longleftrightarrow>
     distinct (map fst (gomap_entries (Configs configs)))
     \<and> distinct (map fst (gomap_entries (Tombstones configs)))
     \<and> list_all (\<lambda>(i, config). ID config = i) (gomap_entries (Configs configs))
     \<and> list_all (\<lambda>(i, tombstone). tombID tombstone = i) (gomap_entries (Tombstones configs))
     \<and> list_all (\<lambda>i. i \<notin> set (map fst (gomap_entries (Tombstones configs))))
          (map fst (gomap_entries (Configs configs)))"

definition Configs_inv :: "'d Configs \<Rightarrow> bool" where
  "Configs_inv configs \<longleftrightarrow>
     distinct (map fst (gomap_entries (Types configs)))
     \<and> list_all (\<lambda>(typ, state). TypeConfigs_inv state) (gomap_entries (Types configs))"

text \<open>
  The kind and version of the entry a \<open>Get\<close> returned: \<open>Some (True, v)\<close> for a live config
  of version \<open>v\<close>, \<open>Some (False, v)\<close> for a tombstone, \<open>None\<close> when the identity is absent.
\<close>

definition result_version :: "'d ConfigResult \<times> bool \<Rightarrow> (bool \<times> 64 word) option" where
  "result_version r =
     (case Config (fst r) of
        Some config \<Rightarrow> Some (True, Version config)
      | None \<Rightarrow>
          (case Tombstone (fst r) of
             Some tombstone \<Rightarrow> Some (False, tombVersion tombstone)
           | None \<Rightarrow> None))"

text \<open>
  The per-type store a \<open>Configs\<close> holds for a type, the empty store when it has none
  (this is what \<open>getState\<close> hands out), and the pair of map lookups at one \<open>ID\<close>.
\<close>

definition state_of :: "'d Configs \<Rightarrow> string \<Rightarrow> 'd TypeConfigs" where
  "state_of configs typ =
     (case gomap_get (Types configs) typ of
        Some state \<Rightarrow> state
      | None \<Rightarrow> \<lparr>Configs = None, Tombstones = None\<rparr>)"

definition cell :: "'d TypeConfigs \<Rightarrow> string \<Rightarrow> 'd Config option \<times> Tombstone option" where
  "cell configs i = (gomap_get (Configs configs) i, gomap_get (Tombstones configs) i)"

definition cell_accepts_config :: "'d Config option \<times> Tombstone option \<Rightarrow> 64 word \<Rightarrow> bool" where
  "cell_accepts_config x version =
     (case fst x of
        Some config \<Rightarrow> version > Version config
      | None \<Rightarrow> (case snd x of Some tombstone \<Rightarrow> version > tombVersion tombstone | None \<Rightarrow> True))"

definition cell_accepts_tombstone :: "'d Config option \<times> Tombstone option \<Rightarrow> 64 word \<Rightarrow> bool" where
  "cell_accepts_tombstone x version =
     (case fst x of
        Some config \<Rightarrow> version \<ge> Version config
      | None \<Rightarrow> (case snd x of Some tombstone \<Rightarrow> version > tombVersion tombstone | None \<Rightarrow> True))"

definition cell_new ::
  "'d Config option \<times> Tombstone option \<Rightarrow> 'd Config \<Rightarrow> 'd Config option \<times> Tombstone option" where
  "cell_new x config =
     (if cell_accepts_config x (Version config) then (Some config, None) else x)"

definition cell_dead ::
  "'d Config option \<times> Tombstone option \<Rightarrow> Tombstone \<Rightarrow> 'd Config option \<times> Tombstone option" where
  "cell_dead x tombstone =
     (if cell_accepts_tombstone x (tombVersion tombstone) then (None, Some tombstone) else x)"

text \<open>
  What merging a store whose lookups at an \<open>ID\<close> are \<open>y\<close> does to a store whose
  lookups there are \<open>x\<close>: the live config of \<open>y\<close> is offered first, its tombstone second.
\<close>

definition cell_merge ::
  "'d Config option \<times> Tombstone option \<Rightarrow> 'd Config option \<times> Tombstone option
   \<Rightarrow> 'd Config option \<times> Tombstone option" where
  "cell_merge x y =
     (let x1 = (case fst y of None \<Rightarrow> x | Some c \<Rightarrow> cell_new x c)
      in (case snd y of None \<Rightarrow> x1 | Some t \<Rightarrow> cell_dead x1 t))"

text \<open>What \<open>Get\<close> answers from the two lookups at an \<open>ID\<close>.\<close>

definition cell_result :: "'d Config option \<times> Tombstone option \<Rightarrow> 'd ConfigResult \<times> bool" where
  "cell_result x = (case x of
        (Some c, _) \<Rightarrow> (\<lparr>Config = Some c, Tombstone = None\<rparr>, True)
      | (None, Some t) \<Rightarrow> (\<lparr>Config = None, Tombstone = Some t\<rparr>, True)
      | (None, None) \<Rightarrow> (\<lparr>Config = None, Tombstone = None\<rparr>, False))"

section \<open>Mutations as handler calls\<close>

text \<open>
  A \<open>Handler\<close> receives \<open>NewConfig(config)\<close> and \<open>DeadConfig(tombstone)\<close> calls. A handler
  backed by a \<open>Configs\<close> (as \<open>MemoryConfigDB\<close> is) forwards each call to the store;
  \<open>apply_event\<close> is one such call and \<open>event_result\<close> also keeps what the store returned.
\<close>

datatype 'd event = NewConfigEv "'d Config" | DeadConfigEv Tombstone

fun event_result :: "'d Configs \<Rightarrow> 'd event \<Rightarrow> 'd Configs \<times> 'd Config option \<times> bool" where
  "event_result state (NewConfigEv config) = Configs_NewConfig state config"
| "event_result state (DeadConfigEv tombstone) = Configs_DeadConfig state tombstone"

definition apply_event :: "'d Configs \<Rightarrow> 'd event \<Rightarrow> 'd Configs" where
  "apply_event state ev = fst (event_result state ev)"

text \<open>
  A store with every payload removed, to compare what an operation does on two stores
  that differ only in the \<open>Data\<close> fields.
\<close>

definition strip_Config :: "'d Config \<Rightarrow> 'd Config" where
  "strip_Config config = config\<lparr>Data := None\<rparr>"

definition strip_TypeConfigs :: "'d TypeConfigs \<Rightarrow> 'd TypeConfigs" where
  "strip_TypeConfigs configs =
     \<lparr>Configs = map_option (map (\<lambda>(i, config). (i, strip_Config config))) (Configs configs),
      Tombstones = Tombstones configs\<rparr>"

definition strip_Configs :: "'d Configs \<Rightarrow> 'd Configs" where
  "strip_Configs configs =
     \<lparr>Types = map_option (map (\<lambda>(typ, state). (typ, strip_TypeConfigs state))) (Types configs)\<rparr>"

section \<open>Concrete stores used as inputs\<close>

definition cfg :: "string \<Rightarrow> string \<Rightarrow> 64 word \<Rightarrow> string \<Rightarrow> string Config" where
  "cfg typ i v d = \<lparr>Type = typ, ID = i, Version = v, Data = Some d\<rparr>"

definition tomb :: "string \<Rightarrow> string \<Rightarrow> 64 word \<Rightarrow> Tombstone" where
  "tomb typ i v = \<lparr>tombType = typ, tombID = i, tombVersion = v\<rparr>"

definition store1 :: "string TypeConfigs" where
  "store1 = \<lparr>Configs = Some [(''a'', cfg ''t'' ''a'' 2 ''x'')],
             Tombstones = Some [(''b'', tomb ''t'' ''b'' 2)]\<rparr>"

definition storeX :: "string Configs" where
  "storeX = \<lparr>Types = Some [(''t'', \<lparr>Configs = Some [(''a'', cfg ''t'' ''a'' 1 ''x'')],
                                   Tombstones = None\<rparr>)]\<rparr>"

definition storeY :: "string Configs" where
  "storeY = \<lparr>Types = Some [(''t'', \<lparr>Configs = Some [(''a'', cfg ''t'' ''a'' 1 ''y'')],
                                   Tombstones = None\<rparr>)]\<rparr>"

definition storeA :: "string Configs" where
  "storeA = \<lparr>Types = Some [(''t'', \<lparr>Configs = Some [(''a'', cfg ''t'' ''a'' 1 ''x'')],
                                   Tombstones = Some [(''b'', tomb ''t'' ''b'' 2)]\<rparr>)]\<rparr>"

definition storeB :: "string Configs" where
  "storeB = \<lparr>Types = Some [(''t'', \<lparr>Configs = Some [(''b'', cfg ''t'' ''b'' 1 ''y'')],
                                   Tombstones = Some [(''a'', tomb ''t'' ''a'' 1)]\<rparr>),
                          (''u'', \<lparr>Configs = Some [(''c'', cfg ''u'' ''c'' 7 ''z'')],
                                   Tombstones = None\<rparr>)]\<rparr>"

text \<open>
  A store without any type, and two stores that hold the \<open>ID\<close> \<open>a\<close> both live and as a
  tombstone. \<open>UnmarshalJSON\<close> returns such per-type stores for a wire form that lists an
  \<open>ID\<close> once in \<open>live\<close> and once in \<open>dead\<close>.
\<close>

definition storeNone :: "string Configs" where
  "storeNone = \<lparr>Types = None\<rparr>"

definition storeLive5Dead9 :: "string Configs" where
  "storeLive5Dead9 = \<lparr>Types = Some [(''t'', \<lparr>Configs = Some [(''a'', cfg ''t'' ''a'' 5 ''x'')],
                                            Tombstones = Some [(''a'', tomb ''t'' ''a'' 9)]\<rparr>)]\<rparr>"

definition storeLive2Dead1 :: "string Configs" where
  "storeLive2Dead1 = \<lparr>Types = Some [(''t'', \<lparr>Configs = Some [(''a'', cfg ''t'' ''a'' 2 ''x'')],
                                            Tombstones = Some [(''a'', tomb ''t'' ''a'' 1)]\<rparr>)]\<rparr>"

section \<open>Wire form of a Config and the type registry\<close>

text \<open>
  The type registry maps a config type name to a reflected type; \<open>NewConfig(name)\<close>
  (here \<open>registry_NewConfig\<close>) creates a fresh object of the registered type, or fails for
  a name that is not registered. The reflected types and \<open>reflect.New\<close> are parameters:
  \<open>'ty\<close> stands for \<open>reflect.Type\<close> and \<open>new_value\<close> for \<open>reflect.New(typ).Interface()\<close>.
  \<open>RegisterType\<close> panics (result \<open>None\<close>) on a pointer type and on a duplicate name.
\<close>

datatype decode_error = BadJSON string | UnknownConfigType string

definition RegisterType ::
  "('ty \<Rightarrow> bool) \<Rightarrow> (string \<rightharpoonup> 'ty) \<Rightarrow> string \<Rightarrow> 'ty \<Rightarrow> (string \<rightharpoonup> 'ty) option" where
  "RegisterType is_pointer typeRegistry name typ =
     (if is_pointer typ then None
      else if typeRegistry name \<noteq> None then None
      else Some (typeRegistry(name \<mapsto> typ)))"

definition registry_NewConfig ::
  "(string \<rightharpoonup> 'ty) \<Rightarrow> ('ty \<Rightarrow> 'd) \<Rightarrow> string \<Rightarrow> decode_error + 'd" where
  "registry_NewConfig typeRegistry new_value name =
     (case typeRegistry name of
        Some typ \<Rightarrow> Inr (new_value typ)
      | None \<Rightarrow> Inl (UnknownConfigType name))"

text \<open>
  \<open>Config.UnmarshalJSON\<close> decodes the body into a struct whose \<open>data\<close> field is kept as
  raw JSON (\<open>None\<close> when it is \<open>nil\<close>), copies type, id and version into the receiver and
  returns at once when there is no data. Otherwise it asks the registry for an object of
  the config's type and decodes the raw data into it. The two uses of \<open>json.Unmarshal\<close>
  are parameters: \<open>json_Unmarshal\<close> for the outer struct and \<open>payload_Unmarshal\<close> for the
  payload, which returns the object filled in.
\<close>

record configJSON =
  jsonType :: string
  jsonID :: string
  jsonVersion :: "64 word"
  jsonData :: "string option"

definition Config_UnmarshalJSON ::
  "(string \<Rightarrow> string + configJSON) \<Rightarrow> (string \<rightharpoonup> 'ty) \<Rightarrow> ('ty \<Rightarrow> 'd)
   \<Rightarrow> (string \<Rightarrow> 'd \<Rightarrow> string + 'd) \<Rightarrow> 'd Config \<Rightarrow> string \<Rightarrow> decode_error + 'd Config" where
  "Config_UnmarshalJSON json_Unmarshal typeRegistry new_value payload_Unmarshal config body =
     (case json_Unmarshal body of
        Inl err \<Rightarrow> Inl (BadJSON err)
      | Inr cj \<Rightarrow>
          let config' = config\<lparr>Type := jsonType cj, ID := jsonID cj, Version := jsonVersion cj\<rparr>
          in (case jsonData cj of
                None \<Rightarrow> Inr config'
              | Some raw \<Rightarrow>
                  (case registry_NewConfig typeRegistry new_value (jsonType cj) of
                     Inl err \<Rightarrow> Inl err
                   | Inr obj \<Rightarrow>
                       (case payload_Unmarshal raw obj of
                          Inl err \<Rightarrow> Inl (BadJSON err)
                        | Inr obj' \<Rightarrow> Inr (config'\<lparr>Data := Some obj'\<rparr>)))))"

section \<open>Stores on a heap\<close>

text \<open>
  The router keeps its store behind pointers: a snapshot points to a \<open>Configs\<close> object,
  whose type map points to \<open>TypeConfigs\<close> objects. To say which objects a copy creates
  and which objects a mutation writes, this part places the two kinds of object on a
  heap. A \<open>Configs\<close> object is its \<open>Types\<close> field, a map from type names to addresses; a
  \<open>TypeConfigs\<close> object is the record above, and the operations on it are the ones
  above, applied to the content of the object. Maps are kept inside the object that
  holds them: the source creates every map with \<open>make\<close> in the field that holds it and
  never assigns a map to a second holder. Configs and tombstones are immutable and are
  kept as values. Allocation takes the next unused address.
\<close>

type_synonym addr = nat

record 'd heap =
  stores :: "addr \<Rightarrow> addr gomap option"
  states :: "addr \<Rightarrow> 'd TypeConfigs"
  next_addr :: addr

definition alloc_state :: "'d heap \<Rightarrow> 'd TypeConfigs \<Rightarrow> 'd heap \<times> addr" where
  "alloc_state h v =
     (h\<lparr>states := (states h)(next_addr h := v), next_addr := Suc (next_addr h)\<rparr>, next_addr h)"

definition alloc_store :: "'d heap \<Rightarrow> addr gomap option \<Rightarrow> 'd heap \<times> addr" where
  "alloc_store h v =
     (h\<lparr>stores := (stores h)(next_addr h := v), next_addr := Suc (next_addr h)\<rparr>, next_addr h)"

definition heap_TypeConfigs_Copy :: "'d heap \<Rightarrow> addr \<Rightarrow> 'd heap \<times> addr" where
  "heap_TypeConfigs_Copy h p = alloc_state h (TypeConfigs_Copy (states h p))"

fun copy_types :: "'d heap \<Rightarrow> (string \<times> addr) list \<Rightarrow> addr gomap \<Rightarrow> 'd heap \<times> addr gomap" where
  "copy_types h [] m = (h, m)"
| "copy_types h ((typ, p) # rest) m =
     (let (h', p') = heap_TypeConfigs_Copy h p
      in copy_types h' rest (AList.update typ p' m))"

definition heap_Configs_Copy :: "'d heap \<Rightarrow> addr \<Rightarrow> 'd heap \<times> addr" where
  "heap_Configs_Copy h a =
     (let (h1, other) = alloc_store h (Some []);
          (h2, m) = copy_types h1 (gomap_entries (stores h1 a)) []
      in (h2\<lparr>stores := (stores h2)(other := Some m)\<rparr>, other))"

definition heap_getState :: "'d heap \<Rightarrow> addr \<Rightarrow> string \<Rightarrow> 'd heap \<times> addr" where
  "heap_getState h a typ =
     (let types = gomap_entries (stores h a)
      in case map_of types typ of
           Some p \<Rightarrow> (h\<lparr>stores := (stores h)(a := Some types)\<rparr>, p)
         | None \<Rightarrow>
             (let (h', p) = alloc_state h \<lparr>Configs = None, Tombstones = None\<rparr>
              in (h'\<lparr>stores := (stores h')(a := Some (AList.update typ p types))\<rparr>, p)))"

definition heap_Configs_NewConfig ::
  "'d heap \<Rightarrow> addr \<Rightarrow> 'd Config \<Rightarrow> 'd heap \<times> 'd Config option \<times> bool" where
  "heap_Configs_NewConfig h a config =
     (let (h1, p) = heap_getState h a (Type config);
          (state', oldConfig, isNew) = TypeConfigs_NewConfig (states h1 p) config
      in (h1\<lparr>states := (states h1)(p := state')\<rparr>, oldConfig, isNew))"

definition heap_Configs_DeadConfig ::
  "'d heap \<Rightarrow> addr \<Rightarrow> Tombstone \<Rightarrow> 'd heap \<times> 'd Config option \<times> bool" where
  "heap_Configs_DeadConfig h a tombstone =
     (let (h1, p) = heap_getState h a (tombType tombstone);
          (state', oldConfig, isNew) = TypeConfigs_DeadConfig (states h1 p) tombstone
      in (h1\<lparr>states := (states h1)(p := state')\<rparr>, oldConfig, isNew))"

text \<open>The store value an address holds: what every read through the pointer sees.\<close>

definition store_value :: "'d heap \<Rightarrow> addr \<Rightarrow> 'd Configs" where
  "store_value h a =
     \<lparr>Types = map_option (map (\<lambda>(typ, p). (typ, states h p))) (stores h a)\<rparr>"

section \<open>Router state\<close>

text \<open>
  Handlers and configurable objects are interface values; the router only calls them.
  They are named by references, and what the router does to them is the list of calls
  it makes, in order. What the objects answer is a parameter: the types an object allows
  (\<open>AllowedConfigTypes\<close>, empty when it is not \<open>Routable\<close>), the object its \<open>Copy\<close>
  returns, and the error a call returns. The field \<open>Configs\<close> of \<open>routerState\<close> is a
  pointer to the store; it is \<open>stateConfigs\<close> here.
\<close>

type_synonym ref = nat

datatype 'd call =
    Handler_NewConfig ref "'d Config"
  | Handler_DeadConfig ref Tombstone
  | State_NewConfig ref "'d Config"
  | State_DeadConfig ref "'d Config"
  | State_Copy ref

record 'd objects =
  AllowedConfigTypes :: "ref \<Rightarrow> string list"
  Copy_result :: "ref \<Rightarrow> ref"
  call_error :: "'d call \<Rightarrow> string option"

definition appendError :: "string list \<Rightarrow> string option \<Rightarrow> string list" where
  "appendError result err = (case err of None \<Rightarrow> result | Some e \<Rightarrow> result @ [e])"

definition combineErrors :: "string list \<Rightarrow> string option" where
  "combineErrors list =
     (if list = [] then None else Some (concat (map (\<lambda>e. e @ [CHR 0x0A]) list)))"

record routerState =
  stateConfigs :: addr
  KeyedStates :: "ref gomap"
  typedStates :: "ref list gomap"
  untypedStates :: "ref list"
  untypedHandlers :: "ref list"
  typedHandlers :: "ref list gomap"

definition typed_for :: "ref list gomap \<Rightarrow> string \<Rightarrow> ref list" where
  "typed_for m typ = (case map_of m typ of Some l \<Rightarrow> l | None \<Rightarrow> [])"

fun add_handlers :: "'d objects \<Rightarrow> routerState \<Rightarrow> ref list \<Rightarrow> routerState" where
  "add_handlers env state [] = state"
| "add_handlers env state (handler # rest) =
     (let types = AllowedConfigTypes env handler
      in if length types = 0
         then add_handlers env (state\<lparr>untypedHandlers := untypedHandlers state @ [handler]\<rparr>) rest
         else add_handlers env
                (state\<lparr>typedHandlers :=
                   foldl (\<lambda>m typ. AList.update typ (typed_for m typ @ [handler]) m)
                     (typedHandlers state) types\<rparr>)
                rest)"

definition newRouterState ::
  "'d objects \<Rightarrow> 'd heap \<Rightarrow> addr option \<Rightarrow> ref list \<Rightarrow> 'd heap \<times> routerState" where
  "newRouterState env h configs handlers =
     (let (h', a) = (case configs of None \<Rightarrow> alloc_store h None | Some a \<Rightarrow> (h, a))
      in (h', add_handlers env
                \<lparr>stateConfigs = a, KeyedStates = [], typedStates = [], untypedStates = [],
                 untypedHandlers = [], typedHandlers = []\<rparr> handlers))"

text \<open>
  \<open>registerState\<close> panics (result \<open>None\<close>) when the key is taken. With \<open>notify\<close> it replays
  the live configs the object allows; the errors of these calls are dropped by the source.
\<close>

definition heap_ConfigArray :: "'d heap \<Rightarrow> addr \<Rightarrow> 'd Config list" where
  "heap_ConfigArray h a = Configs_ConfigArray (store_value h a)"

fun register_types ::
  "'d heap \<Rightarrow> routerState \<Rightarrow> ref \<Rightarrow> bool \<Rightarrow> string list \<Rightarrow> routerState \<times> 'd call list" where
  "register_types h state obj notify [] = (state, [])"
| "register_types h state obj notify (typ # rest) =
     (let state' = state\<lparr>typedStates :=
                     AList.update typ (typed_for (typedStates state) typ @ [obj]) (typedStates state)\<rparr>;
          calls = (case map_of (gomap_entries (stores h (stateConfigs state))) typ of
                     Some p \<Rightarrow>
                       if notify then map (State_NewConfig obj) (gomap_range (Configs (states h p)))
                       else []
                   | None \<Rightarrow> []);
          (state'', calls') = register_types h state' obj notify rest
      in (state'', calls @ calls'))"

definition registerState ::
  "'d objects \<Rightarrow> 'd heap \<Rightarrow> routerState \<Rightarrow> string \<Rightarrow> ref \<Rightarrow> bool
   \<Rightarrow> (routerState \<times> 'd call list) option" where
  "registerState env h state key obj notify =
     (if map_of (KeyedStates state) key \<noteq> None then None
      else
        let state1 = state\<lparr>KeyedStates := AList.update key obj (KeyedStates state)\<rparr>;
            types = AllowedConfigTypes env obj
        in if length types = 0
           then Some (state1\<lparr>untypedStates := untypedStates state1 @ [obj]\<rparr>,
                      if notify then map (State_NewConfig obj) (heap_ConfigArray h (stateConfigs state1))
                      else [])
           else Some (register_types h state1 obj notify types))"

definition RegisterState ::
  "'d objects \<Rightarrow> 'd heap \<Rightarrow> routerState \<Rightarrow> string \<Rightarrow> ref \<Rightarrow> (routerState \<times> 'd call list) option" where
  "RegisterState env h state key obj = registerState env h state key obj True"

text \<open>
  \<open>UnregisterState\<close> panics when the key is not registered or when the object is missing
  from a list it should be in; \<open>removeTarget\<close> removes the first occurrence.
\<close>

definition removeTarget :: "ref \<Rightarrow> ref list \<Rightarrow> ref list option" where
  "removeTarget targetObj list =
     (if targetObj \<in> set list then Some (remove1 targetObj list) else None)"

fun unregister_types :: "routerState \<Rightarrow> ref \<Rightarrow> string list \<Rightarrow> routerState option" where
  "unregister_types state targetObj [] = Some state"
| "unregister_types state targetObj (typ # rest) =
     (case removeTarget targetObj (typed_for (typedStates state) typ) of
        None \<Rightarrow> None
      | Some l \<Rightarrow>
          unregister_types (state\<lparr>typedStates := AList.update typ l (typedStates state)\<rparr>)
            targetObj rest)"

definition UnregisterState :: "'d objects \<Rightarrow> routerState \<Rightarrow> string \<Rightarrow> routerState option" where
  "UnregisterState env state target =
     (case map_of (KeyedStates state) target of
        None \<Rightarrow> None
      | Some targetObj \<Rightarrow>
          let state1 = state\<lparr>KeyedStates := AList.delete target (KeyedStates state)\<rparr>;
              types = AllowedConfigTypes env targetObj
          in if length types = 0
             then (case removeTarget targetObj (untypedStates state1) of
                     None \<Rightarrow> None
                   | Some l \<Rightarrow> Some (state1\<lparr>untypedStates := l\<rparr>))
             else unregister_types state1 targetObj types)"

text \<open>
  \<open>Copy\<close> copies the store, shares the handler tables and registers a copy of every
  keyed object without notification.
\<close>

fun copy_states ::
  "'d objects \<Rightarrow> 'd heap \<Rightarrow> routerState \<Rightarrow> (string \<times> ref) list
   \<Rightarrow> (routerState \<times> 'd call list) option" where
  "copy_states env h newState [] = Some (newState, [])"
| "copy_states env h newState ((key, obj) # rest) =
     (case registerState env h newState key (Copy_result env obj) False of
        None \<Rightarrow> None
      | Some (newState', calls) \<Rightarrow>
          (case copy_states env h newState' rest of
             None \<Rightarrow> None
           | Some (newState'', calls') \<Rightarrow> Some (newState'', State_Copy obj # calls @ calls')))"

definition routerState_Copy ::
  "'d objects \<Rightarrow> 'd heap \<Rightarrow> routerState \<Rightarrow> ('d heap \<times> routerState \<times> 'd call list) option" where
  "routerState_Copy env h state =
     (let (h', a) = heap_Configs_Copy h (stateConfigs state);
          newState = \<lparr>stateConfigs = a, KeyedStates = [], typedStates = [], untypedStates = [],
                      untypedHandlers = untypedHandlers state,
                      typedHandlers = typedHandlers state\<rparr>
      in case copy_states env h' newState (KeyedStates state) of
           None \<Rightarrow> None
         | Some (newState', calls) \<Rightarrow> Some (h', newState', calls))"

text \<open>
  \<open>NewConfig\<close> and \<open>DeadConfig\<close> on a router state: the store decides; when the record is
  new the handlers are called, untyped first, and then the configurable objects, untyped
  first. The result is the heap, the calls made and the combined error of the calls on
  configurable objects.
\<close>

definition state_new_calls :: "'d Config option \<Rightarrow> 'd Config \<Rightarrow> ref \<Rightarrow> 'd call list" where
  "state_new_calls oldConfig config obj =
     (case oldConfig of None \<Rightarrow> [] | Some old \<Rightarrow> [State_DeadConfig obj old])
     @ [State_NewConfig obj config]"

definition routerState_NewConfig ::
  "'d objects \<Rightarrow> 'd heap \<Rightarrow> routerState \<Rightarrow> 'd Config \<Rightarrow> 'd heap \<times> 'd call list \<times> string option" where
  "routerState_NewConfig env h state config =
     (let (h', oldConfig, isNew) = heap_Configs_NewConfig h (stateConfigs state) config
      in if \<not> isNew then (h', [], None)
         else
           let handler_calls =
                 map (\<lambda>handler. Handler_NewConfig handler config)
                   (untypedHandlers state @ typed_for (typedHandlers state) (Type config));
               state_calls =
                 concat (map (state_new_calls oldConfig config)
                   (untypedStates state @ typed_for (typedStates state) (Type config)))
           in (h', handler_calls @ state_calls,
               combineErrors (foldl appendError [] (map (call_error env) state_calls))))"

definition routerState_DeadConfig ::
  "'d objects \<Rightarrow> 'd heap \<Rightarrow> routerState \<Rightarrow> Tombstone \<Rightarrow> 'd heap \<times> 'd call list \<times> string option" where
  "routerState_DeadConfig env h state tombstone =
     (let (h', oldConfig, isNew) = heap_Configs_DeadConfig h (stateConfigs state) tombstone
      in if \<not> isNew then (h', [], None)
         else
           let handler_calls =
                 map (\<lambda>handler. Handler_DeadConfig handler tombstone)
                   (untypedHandlers state @ typed_for (typedHandlers state) (tombType tombstone))
           in case oldConfig of
                None \<Rightarrow> (h', handler_calls, None)
              | Some old \<Rightarrow>
                  let state_calls =
                        map (\<lambda>obj. State_DeadConfig obj old)
                          (untypedStates state @ typed_for (typedStates state) (tombType tombstone))
                  in (h', handler_calls @ state_calls,
                      combineErrors (foldl appendError [] (map (call_error env) state_calls))))"

text \<open>
  \<open>PushConfigs\<close> ranges over the per-type stores of the pushed \<open>Configs\<close>; for each it offers
  the live configs and then the tombstones, reading the pushed object when each loop starts.
\<close>

fun push_live ::
  "'d objects \<Rightarrow> 'd heap \<Rightarrow> routerState \<Rightarrow> 'd Config list \<Rightarrow> 'd heap \<times> 'd call list \<times> string list" where
  "push_live env h state [] = (h, [], [])"
| "push_live env h state (config # rest) =
     (let (h1, calls, err) = routerState_NewConfig env h state config;
          (h2, calls', errors) = push_live env h1 state rest
      in (h2, calls @ calls', appendError [] err @ errors))"

fun push_dead ::
  "'d objects \<Rightarrow> 'd heap \<Rightarrow> routerState \<Rightarrow> Tombstone list \<Rightarrow> 'd heap \<times> 'd call list \<times> string list" where
  "push_dead env h state [] = (h, [], [])"
| "push_dead env h state (tombstone # rest) =
     (let (h1, calls, err) = routerState_DeadConfig env h state tombstone;
          (h2, calls', errors) = push_dead env h1 state rest
      in (h2, calls @ calls', appendError [] err @ errors))"

fun push_types ::
  "'d objects \<Rightarrow> 'd heap \<Rightarrow> routerState \<Rightarrow> addr list \<Rightarrow> 'd heap \<times> 'd call list \<times> string list" where
  "push_types env h state [] = (h, [], [])"
| "push_types env h state (typed # rest) =
     (let (h1, calls1, errors1) = push_live env h state (gomap_range (Configs (states h typed)));
          (h2, calls2, errors2) = push_dead env h1 state (gomap_range (Tombstones (states h1 typed)));
          (h3, calls3, errors3) = push_types env h2 state rest
      in (h3, calls1 @ calls2 @ calls3, errors1 @ errors2 @ errors3))"

definition routerState_PushConfigs ::
  "'d objects \<Rightarrow> 'd heap \<Rightarrow> routerState \<Rightarrow> addr \<Rightarrow> 'd heap \<times> 'd call list \<times> string option" where
  "routerState_PushConfigs env h state configs =
     (let (h', calls, errors) = push_types env h state (gomap_range (stores h configs))
      in (h', calls, combineErrors errors))"

section \<open>Router\<close>

text \<open>
  The router goroutine takes one message, copies the current state, applies the message
  and up to 16 further messages that are waiting (\<open>processMore\<close>), and publishes the copy.
  The current state is what \<open>get\<close> returns; a reader that called \<open>get\<close> earlier keeps the
  state it got. Which messages are waiting when \<open>processMore\<close> looks is up to the
  scheduler: a batch is a first message and the messages found waiting, of which at
  most 16 are taken. A panic is the result \<open>None\<close>.
\<close>

datatype 'd message =
    RegisterStateMsg string ref
  | UnregisterStateMsg string
  | NewConfigMsg "'d Config"
  | DeadConfigMsg Tombstone
  | PushConfigsMsg addr

fun apply_message ::
  "'d objects \<Rightarrow> 'd heap \<Rightarrow> routerState \<Rightarrow> 'd message
   \<Rightarrow> ('d heap \<times> routerState \<times> 'd call list) option" where
  "apply_message env h state (RegisterStateMsg key obj) =
     (case RegisterState env h state key obj of
        None \<Rightarrow> None
      | Some (state', calls) \<Rightarrow> Some (h, state', calls))"
| "apply_message env h state (UnregisterStateMsg key) =
     (case UnregisterState env state key of
        None \<Rightarrow> None
      | Some state' \<Rightarrow> Some (h, state', []))"
| "apply_message env h state (NewConfigMsg config) =
     (let (h', calls, err) = routerState_NewConfig env h state config in Some (h', state, calls))"
| "apply_message env h state (DeadConfigMsg tombstone) =
     (let (h', calls, err) = routerState_DeadConfig env h state tombstone in Some (h', state, calls))"
| "apply_message env h state (PushConfigsMsg configs) =
     (let (h', calls, err) = routerState_PushConfigs env h state configs in Some (h', state, calls))"

fun apply_messages ::
  "'d objects \<Rightarrow> 'd heap \<Rightarrow> routerState \<Rightarrow> 'd message list
   \<Rightarrow> ('d heap \<times> routerState \<times> 'd call list) option" where
  "apply_messages env h state [] = Some (h, state, [])"
| "apply_messages env h state (msg # rest) =
     (case apply_message env h state msg of
        None \<Rightarrow> None
      | Some (h', state', calls) \<Rightarrow>
          (case apply_messages env h' state' rest of
             None \<Rightarrow> None
           | Some (h'', state'', calls') \<Rightarrow> Some (h'', state'', calls @ calls')))"

definition process_batch ::
  "'d objects \<Rightarrow> 'd heap \<Rightarrow> routerState \<Rightarrow> 'd message \<times> 'd message list
   \<Rightarrow> ('d heap \<times> routerState \<times> 'd call list) option" where
  "process_batch env h current batch =
     (case routerState_Copy env h current of
        None \<Rightarrow> None
      | Some (h', state, calls) \<Rightarrow>
          (case apply_messages env h' state (fst batch # take 16 (snd batch)) of
             None \<Rightarrow> None
           | Some (h'', state', calls') \<Rightarrow> Some (h'', state', calls @ calls')))"

fun router_run ::
  "'d objects \<Rightarrow> 'd heap \<Rightarrow> routerState \<Rightarrow> ('d message \<times> 'd message list) list
   \<Rightarrow> ('d heap \<times> routerState \<times> 'd call list) option" where
  "router_run env h current [] = Some (h, current, [])"
| "router_run env h current (batch # rest) =
     (case process_batch env h current batch of
        None \<Rightarrow> None
      | Some (h', current', calls) \<Rightarrow>
          (case router_run env h' current' rest of
             None \<Rightarrow> None
           | Some (h'', current'', calls') \<Rightarrow> Some (h'', current'', calls @ calls')))"

text \<open>
  Vocabulary for the frame of the router: \<open>frame n h h'\<close> says that \<open>h'\<close> has every object
  below address \<open>n\<close> as \<open>h\<close> has it, and \<open>owned n h a\<close> that the \<open>Configs\<close> object at \<open>a\<close> and
  the per-type stores it points to lie at or above \<open>n\<close>.
\<close>

definition frame :: "addr \<Rightarrow> 'd heap \<Rightarrow> 'd heap \<Rightarrow> bool" where
  "frame n h h' \<longleftrightarrow>
     next_addr h \<le> next_addr h'
     \<and> (\<forall>a<n. stores h' a = stores h a \<and> states h' a = states h a)"


text \<open>
  A concrete router state for the examples: the store at address 0 has one type \<open>t\<close> with
  the live config \<open>a\<close> at version 1; object 7 is registered for all types, object 8 for
  type \<open>t\<close>; handler 1 takes all types, handler 2 type \<open>t\<close>. Every object returns itself
  from \<open>Copy\<close>, as the test object of the repository does, and no call fails.
\<close>

definition env0 :: "string objects" where
  "env0 = \<lparr>AllowedConfigTypes = (\<lambda>r. if r = 8 \<or> r = 2 then [''t''] else []),
           Copy_result = (\<lambda>r. r),
           call_error = (\<lambda>c. None)\<rparr>"

definition heap0 :: "string heap" where
  "heap0 = \<lparr>stores = (\<lambda>a. None)(0 := Some [(''t'', 1)]),
            states = (\<lambda>p. \<lparr>Configs = None, Tombstones = None\<rparr>)
                       (1 := \<lparr>Configs = Some [(''a'', \<lparr>Type = ''t'', ID = ''a'', Version = 1,
                                                       Data = Some ''x''\<rparr>)],
                              Tombstones = None\<rparr>),
            next_addr = 2\<rparr>"

definition rstate0 :: routerState where
  "rstate0 = \<lparr>stateConfigs = 0, KeyedStates = [(''D'', 7), (''E'', 8)],
              typedStates = [(''t'', [8])], untypedStates = [7],
              untypedHandlers = [1], typedHandlers = [(''t'', [2])]\<rparr>"






section \<open>The append-only file database\<close>

text \<open>
  A line of the file is \<open>magic(8) crc(8 hex digits) head(1) body newline\<close>. \<open>loadLine\<close>
  slices the line before any check: \<open>line[0:8]\<close>, \<open>line[8:16]\<close>, \<open>line[16]\<close> and
  \<open>line[17 : len(line)-1]\<close>. For a line of fewer than 18 bytes one of these is out of
  range and the Go runtime panics; that outcome is \<open>Panic\<close>. The checksum function and
  the two JSON decoders are parameters.
\<close>

definition magicAOF :: string where
  "magicAOF = ''e74e1902''"

datatype aof_error =
    InvalidMagic string
  | UnreadableCRC string
  | CRCMismatch
  | UnknownHeader char
  | BodyError string

datatype 'a outcome = Panic | Failed aof_error | Done 'a

text \<open>\<open>strconv.ParseUint(s, 16, 32)\<close>: hexadecimal digits of either case, no sign, no prefix.\<close>

definition hex_value :: "char \<Rightarrow> nat option" where
  "hex_value c =
     (let n = (of_char c :: nat)
      in if 48 \<le> n \<and> n \<le> 57 then Some (n - 48)
         else if 97 \<le> n \<and> n \<le> 102 then Some (n - 87)
         else if 65 \<le> n \<and> n \<le> 70 then Some (n - 55)
         else None)"

fun parse_hex :: "nat \<Rightarrow> string \<Rightarrow> nat option" where
  "parse_hex acc [] = Some acc"
| "parse_hex acc (c # cs) =
     (case hex_value c of None \<Rightarrow> None | Some d \<Rightarrow> parse_hex (acc * 16 + d) cs)"

definition ParseUint_16_32 :: "string \<Rightarrow> nat option" where
  "ParseUint_16_32 s =
     (if s = [] then None
      else case parse_hex 0 s of
             None \<Rightarrow> None
           | Some n \<Rightarrow> if n < 2 ^ 32 then Some n else None)"

definition loadNewConfig ::
  "(string \<Rightarrow> string + 'd Config) \<Rightarrow> 'd Configs \<Rightarrow> string \<Rightarrow> 'd Configs outcome" where
  "loadNewConfig config_Unmarshal configs body =
     (case config_Unmarshal body of
        Inl err \<Rightarrow> Failed (BodyError err)
      | Inr config \<Rightarrow> Done (fst (Configs_NewConfig configs config)))"

definition loadDeadConfig ::
  "(string \<Rightarrow> string + Tombstone) \<Rightarrow> 'd Configs \<Rightarrow> string \<Rightarrow> 'd Configs outcome" where
  "loadDeadConfig tombstone_Unmarshal configs body =
     (case tombstone_Unmarshal body of
        Inl err \<Rightarrow> Failed (BodyError err)
      | Inr tombstone \<Rightarrow> Done (fst (Configs_DeadConfig configs tombstone)))"

definition loadLine ::
  "(string \<Rightarrow> 32 word) \<Rightarrow> (string \<Rightarrow> string + 'd Config) \<Rightarrow> (string \<Rightarrow> string + Tombstone)
   \<Rightarrow> 'd Configs \<Rightarrow> string \<Rightarrow> 'd Configs outcome" where
  "loadLine ChecksumIEEE config_Unmarshal tombstone_Unmarshal configs line =
     (if length line < 18 then Panic
      else
        let magic = take 8 line;
            crcStr = take 8 (drop 8 line);
            head = line ! 16;
            body = take (length line - 18) (drop 17 line)
        in if magic \<noteq> magicAOF then Failed (InvalidMagic magic)
           else
             (case ParseUint_16_32 crcStr of
                None \<Rightarrow> Failed (UnreadableCRC crcStr)
              | Some crc \<Rightarrow>
                  if ChecksumIEEE body \<noteq> word_of_nat crc then Failed CRCMismatch
                  else if head = CHR ''n'' then loadNewConfig config_Unmarshal configs body
                  else if head = CHR ''t'' then loadDeadConfig tombstone_Unmarshal configs body
                  else Failed (UnknownHeader head)))"

text \<open>
  \<open>load\<close> reads the file with \<open>ReadBytes('\n')\<close>: every complete line, newline included,
  is handed to \<open>loadLine\<close>; the bytes after the last newline come back with \<open>io.EOF\<close> and
  end the loop unread. An error of \<open>loadLine\<close> sets \<open>loadError\<close> and the loop goes on; a
  panic ends the process, which is the result \<open>None\<close>.
\<close>

fun read_lines :: "string \<Rightarrow> string \<Rightarrow> string list" where
  "read_lines cur [] = []"
| "read_lines cur (c # cs) =
     (if c = CHR 0x0A then (cur @ [c]) # read_lines [] cs else read_lines (cur @ [c]) cs)"

record 'd AOFConfigDB =
  configs :: "'d Configs"
  loadError :: bool

fun load_lines ::
  "(string \<Rightarrow> 32 word) \<Rightarrow> (string \<Rightarrow> string + 'd Config) \<Rightarrow> (string \<Rightarrow> string + Tombstone)
   \<Rightarrow> 'd AOFConfigDB \<Rightarrow> string list \<Rightarrow> 'd AOFConfigDB option" where
  "load_lines ChecksumIEEE config_Unmarshal tombstone_Unmarshal db [] = Some db"
| "load_lines ChecksumIEEE config_Unmarshal tombstone_Unmarshal db (line # rest) =
     (case loadLine ChecksumIEEE config_Unmarshal tombstone_Unmarshal (configs db) line of
        Panic \<Rightarrow> None
      | Failed err \<Rightarrow>
          load_lines ChecksumIEEE config_Unmarshal tombstone_Unmarshal (db\<lparr>loadError := True\<rparr>) rest
      | Done configs' \<Rightarrow>
          load_lines ChecksumIEEE config_Unmarshal tombstone_Unmarshal (db\<lparr>configs := configs'\<rparr>) rest)"

definition load ::
  "(string \<Rightarrow> 32 word) \<Rightarrow> (string \<Rightarrow> string + 'd Config) \<Rightarrow> (string \<Rightarrow> string + Tombstone)
   \<Rightarrow> string \<Rightarrow> 'd AOFConfigDB option" where
  "load ChecksumIEEE config_Unmarshal tombstone_Unmarshal file =
     load_lines ChecksumIEEE config_Unmarshal tombstone_Unmarshal
       \<lparr>configs = \<lparr>Types = None\<rparr>, loadError = False\<rparr> (read_lines [] file)"

text \<open>\<open>Load\<close> initialises the database (which loads the file) and returns a copy.\<close>

definition AOFConfigDB_Load ::
  "(string \<Rightarrow> 32 word) \<Rightarrow> (string \<Rightarrow> string + 'd Config) \<Rightarrow> (string \<Rightarrow> string + Tombstone)
   \<Rightarrow> string \<Rightarrow> ('d Configs \<times> bool) option" where
  "AOFConfigDB_Load ChecksumIEEE config_Unmarshal tombstone_Unmarshal file =
     (case load ChecksumIEEE config_Unmarshal tombstone_Unmarshal file of
        None \<Rightarrow> None
      | Some db \<Rightarrow> Some (Configs_Copy (configs db), loadError db))"

section \<open>Basic facts about the per-type store\<close>

lemma gomap_get_simps [simp]:
  "gomap_get None k = None" "gomap_get (Some al) k = map_of al k"
  by (simp_all add: gomap_get_def)

lemma gomap_range_simps [simp]:
  "gomap_range None = []" "gomap_range (Some al) = map snd al"
  by (simp_all add: gomap_range_def)

lemma gomap_entries_simps [simp]:
  "gomap_entries None = []" "gomap_entries (Some al) = al"
  by (simp_all add: gomap_entries_def)

lemma gomap_range_entries: "gomap_range m = map snd (gomap_entries m)"
  by (cases m) simp_all

lemma gomap_get_entries: "gomap_get m = map_of (gomap_entries m)"
  by (cases m) (simp_all add: fun_eq_iff)

lemma NewConfig_rejected:
  "\<not> isNewConfig s (ID c) (Version c) \<Longrightarrow> TypeConfigs_NewConfig s c = (s, None, False)"
  by (simp add: TypeConfigs_NewConfig_def)

lemma NewConfig_accepted:
  assumes "isNewConfig s (ID c) (Version c)"
  shows "gomap_get (Configs (fst (TypeConfigs_NewConfig s c))) = (gomap_get (Configs s))(ID c \<mapsto> c)"
    and "gomap_get (Tombstones (fst (TypeConfigs_NewConfig s c))) = (gomap_get (Tombstones s))(ID c := None)"
    and "fst (snd (TypeConfigs_NewConfig s c)) = gomap_get (Configs s) (ID c)"
    and "snd (snd (TypeConfigs_NewConfig s c))"
  using assms
  by (auto simp: TypeConfigs_NewConfig_def update_conv' delete_conv' gomap_get_def fun_eq_iff
           split: option.splits)

lemma DeadConfig_rejected:
  "\<not> isNewTombstone s (tombID t) (tombVersion t) \<Longrightarrow> TypeConfigs_DeadConfig s t = (s, None, False)"
  by (simp add: TypeConfigs_DeadConfig_def)

lemma DeadConfig_accepted:
  assumes "isNewTombstone s (tombID t) (tombVersion t)"
  shows "gomap_get (Configs (fst (TypeConfigs_DeadConfig s t))) = (gomap_get (Configs s))(tombID t := None)"
    and "gomap_get (Tombstones (fst (TypeConfigs_DeadConfig s t))) = (gomap_get (Tombstones s))(tombID t \<mapsto> t)"
    and "fst (snd (TypeConfigs_DeadConfig s t)) = gomap_get (Configs s) (tombID t)"
    and "snd (snd (TypeConfigs_DeadConfig s t))"
  using assms
  by (auto simp: TypeConfigs_DeadConfig_def update_conv' delete_conv' gomap_get_def fun_eq_iff
           split: option.splits)

lemma NewConfig_isNew:
  "snd (snd (TypeConfigs_NewConfig s c)) = isNewConfig s (ID c) (Version c)"
  by (simp add: TypeConfigs_NewConfig_def Let_def split: prod.splits)

lemma DeadConfig_isNew:
  "snd (snd (TypeConfigs_DeadConfig s t)) = isNewTombstone s (tombID t) (tombVersion t)"
  by (simp add: TypeConfigs_DeadConfig_def Let_def split: prod.splits)

lemma isNewConfig_cell: "isNewConfig s i v = cell_accepts_config (cell s i) v"
  by (simp add: isNewConfig_def cell_accepts_config_def cell_def split: option.splits)

lemma isNewTombstone_cell: "isNewTombstone s i v = cell_accepts_tombstone (cell s i) v"
  by (simp add: isNewTombstone_def cell_accepts_tombstone_def cell_def split: option.splits)

lemma cell_NewConfig:
  "cell (fst (TypeConfigs_NewConfig s c)) i = (if i = ID c then cell_new (cell s i) c else cell s i)"
proof (cases "isNewConfig s (ID c) (Version c)")
  case True
  show ?thesis
    using True NewConfig_accepted(1,2)[OF True]
    by (simp add: cell_def cell_new_def isNewConfig_cell)
next
  case False
  then show ?thesis
    by (simp add: NewConfig_rejected cell_new_def isNewConfig_cell)
qed

lemma cell_DeadConfig:
  "cell (fst (TypeConfigs_DeadConfig s t)) i =
     (if i = tombID t then cell_dead (cell s i) t else cell s i)"
proof (cases "isNewTombstone s (tombID t) (tombVersion t)")
  case True
  show ?thesis
    using True DeadConfig_accepted(1,2)[OF True]
    by (simp add: cell_def cell_dead_def isNewTombstone_cell)
next
  case False
  then show ?thesis
    by (simp add: DeadConfig_rejected cell_dead_def isNewTombstone_cell)
qed

lemma TypeConfigs_Get_cell:
  "TypeConfigs_Get s i =
     (case cell s i of
        (Some c, _) \<Rightarrow> (\<lparr>Config = Some c, Tombstone = None\<rparr>, True)
      | (None, Some t) \<Rightarrow> (\<lparr>Config = None, Tombstone = Some t\<rparr>, True)
      | (None, None) \<Rightarrow> (\<lparr>Config = None, Tombstone = None\<rparr>, False))"
  by (simp add: TypeConfigs_Get_def cell_def split: option.splits)

section \<open>Merging per-type stores\<close>


lemma cell_Merge_live:
  "cell (fst (Merge_live s cs)) i = foldl cell_new (cell s i) (filter (\<lambda>c. ID c = i) cs)"
proof (induction cs arbitrary: s)
  case Nil
  show ?case by simp
next
  case (Cons c cs)
  show ?case
    using Cons.IH[of "fst (TypeConfigs_NewConfig s c)"]
    by (simp add: split_beta Let_def cell_NewConfig)
qed

lemma cell_Merge_dead:
  "cell (fst (Merge_dead s ts)) i = foldl cell_dead (cell s i) (filter (\<lambda>t. tombID t = i) ts)"
proof (induction ts arbitrary: s)
  case Nil
  show ?case by simp
next
  case (Cons t ts)
  show ?case
    using Cons.IH[of "fst (TypeConfigs_DeadConfig s t)"]
    by (simp add: split_beta Let_def cell_DeadConfig)
qed

lemma snd_Merge_live:
  "distinct (map ID cs) \<Longrightarrow>
   snd (Merge_live s cs) = filter (\<lambda>c. isNewConfig s (ID c) (Version c)) cs"
proof (induction cs arbitrary: s)
  case Nil
  show ?case by simp
next
  case (Cons c cs)
  have "filter (\<lambda>x. isNewConfig (fst (TypeConfigs_NewConfig s c)) (ID x) (Version x)) cs
        = filter (\<lambda>x. isNewConfig s (ID x) (Version x)) cs"
  proof (intro filter_cong refl)
    fix x assume "x \<in> set cs"
    with Cons.prems have "ID x \<noteq> ID c" by (auto simp: image_iff)
    then show "isNewConfig (fst (TypeConfigs_NewConfig s c)) (ID x) (Version x)
             = isNewConfig s (ID x) (Version x)"
      by (simp add: isNewConfig_cell cell_NewConfig)
  qed
  then show ?case
    using Cons.IH[of "fst (TypeConfigs_NewConfig s c)"] Cons.prems NewConfig_isNew[of s c]
    by (simp add: split_beta Let_def)
qed

lemma snd_Merge_dead:
  "distinct (map tombID ts) \<Longrightarrow>
   snd (Merge_dead s ts) = filter (\<lambda>t. isNewTombstone s (tombID t) (tombVersion t)) ts"
proof (induction ts arbitrary: s)
  case Nil
  show ?case by simp
next
  case (Cons t ts)
  have "filter (\<lambda>x. isNewTombstone (fst (TypeConfigs_DeadConfig s t)) (tombID x) (tombVersion x)) ts
        = filter (\<lambda>x. isNewTombstone s (tombID x) (tombVersion x)) ts"
  proof (intro filter_cong refl)
    fix x assume "x \<in> set ts"
    with Cons.prems have "tombID x \<noteq> tombID t" by (auto simp: image_iff)
    then show "isNewTombstone (fst (TypeConfigs_DeadConfig s t)) (tombID x) (tombVersion x)
             = isNewTombstone s (tombID x) (tombVersion x)"
      by (simp add: isNewTombstone_cell cell_DeadConfig)
  qed
  then show ?case
    using Cons.IH[of "fst (TypeConfigs_DeadConfig s t)"] Cons.prems DeadConfig_isNew[of s t]
    by (simp add: split_beta Let_def)
qed

text \<open>Consequences of the invariant of a per-type store.\<close>

lemma inv_live_ids:
  assumes "TypeConfigs_inv s"
  shows "map ID (gomap_range (Configs s)) = map fst (gomap_entries (Configs s))"
  using assms by (auto simp: TypeConfigs_inv_def gomap_range_entries list_all_iff)

lemma inv_dead_ids:
  assumes "TypeConfigs_inv s"
  shows "map tombID (gomap_range (Tombstones s)) = map fst (gomap_entries (Tombstones s))"
  using assms by (auto simp: TypeConfigs_inv_def gomap_range_entries list_all_iff)

lemma filter_keyed:
  assumes "distinct (map fst al)" "list_all (\<lambda>(k, v). f v = k) al"
  shows "filter (\<lambda>v. f v = i) (map snd al) = (case map_of al i of None \<Rightarrow> [] | Some v \<Rightarrow> [v])"
  using assms
proof (induction al)
  case Nil
  show ?case by simp
next
  case (Cons a al)
  obtain k v where a: "a = (k, v)" by (cases a)
  show ?case
  proof (cases "k = i")
    case True
    with Cons.prems a have "i \<notin> fst ` set al" by auto
    have "\<And>k' v'. (k', v') \<in> set al \<Longrightarrow> f v' \<noteq> i"
    proof -
      fix k' v' assume m: "(k', v') \<in> set al"
      with Cons.prems(2) have "f v' = k'" by (auto simp: list_all_iff)
      moreover from m have "k' \<in> fst ` set al" by force
      ultimately show "f v' \<noteq> i" using \<open>i \<notin> fst ` set al\<close> by auto
    qed
    then have "filter (\<lambda>v. f v = i) (map snd al) = []"
      by (fastforce simp: filter_empty_conv)
    with True a Cons.prems show ?thesis by simp
  next
    case False
    with Cons a show ?thesis by auto
  qed
qed

lemma inv_filter_live:
  assumes "TypeConfigs_inv s"
  shows "filter (\<lambda>c. ID c = i) (gomap_range (Configs s)) =
           (case fst (cell s i) of None \<Rightarrow> [] | Some c \<Rightarrow> [c])"
  using assms filter_keyed[of "gomap_entries (Configs s)" ID i]
  by (simp add: TypeConfigs_inv_def gomap_range_entries cell_def gomap_get_entries)

lemma inv_filter_dead:
  assumes "TypeConfigs_inv s"
  shows "filter (\<lambda>t. tombID t = i) (gomap_range (Tombstones s)) =
           (case snd (cell s i) of None \<Rightarrow> [] | Some t \<Rightarrow> [t])"
  using assms filter_keyed[of "gomap_entries (Tombstones s)" tombID i]
  by (simp add: TypeConfigs_inv_def gomap_range_entries cell_def gomap_get_entries)

lemma inv_cell_single:
  assumes "TypeConfigs_inv s"
  shows "fst (cell s i) = None \<or> snd (cell s i) = None"
  using assms
  by (auto simp: TypeConfigs_inv_def cell_def gomap_get_entries list_all_iff map_of_eq_None_iff 
      dest!: map_of_SomeD)

lemma cell_TypeConfigs_Merge:
  assumes "TypeConfigs_inv other"
  shows "cell (fst (TypeConfigs_Merge s other)) i = cell_merge (cell s i) (cell other i)"
  using assms
  by (simp add: TypeConfigs_Merge_def split_beta Let_def cell_Merge_dead cell_Merge_live
       inv_filter_live inv_filter_dead cell_merge_def split: option.splits)

lemma TypeConfigs_Diff_Merge:
  assumes "TypeConfigs_inv other"
  shows "TypeConfigs_Diff s other = snd (TypeConfigs_Merge s other)"
proof -
  let ?cs = "gomap_range (Configs other)" and ?ts = "gomap_range (Tombstones other)"
  have dc: "distinct (map ID ?cs)" and dt: "distinct (map tombID ?ts)"
    using assms inv_live_ids[OF assms] inv_dead_ids[OF assms] by (simp_all add: TypeConfigs_inv_def)
  have disj: "\<And>t. t \<in> set ?ts \<Longrightarrow> tombID t \<notin> ID ` set ?cs"
  proof -
    fix t assume "t \<in> set ?ts"
    then have "tombID t \<in> set (map fst (gomap_entries (Tombstones other)))"
      using inv_dead_ids[OF assms] by (metis image_eqI set_map)
    moreover have "ID ` set ?cs = set (map fst (gomap_entries (Configs other)))"
      using inv_live_ids[OF assms] by (metis set_map)
    moreover have "\<forall>i\<in>set (map fst (gomap_entries (Configs other))).
                     i \<notin> set (map fst (gomap_entries (Tombstones other)))"
      using assms unfolding TypeConfigs_inv_def list_all_iff by blast
    ultimately show "tombID t \<notin> ID ` set ?cs"
      by blast
  qed
  have "filter (\<lambda>t. isNewTombstone (fst (Merge_live s ?cs)) (tombID t) (tombVersion t)) ?ts
      = filter (\<lambda>t. isNewTombstone s (tombID t) (tombVersion t)) ?ts"
  proof (intro filter_cong refl)
    fix t assume "t \<in> set ?ts"
    then have "filter (\<lambda>c. ID c = tombID t) ?cs = []"
      using disj by (force simp: filter_empty_conv image_iff)
    then show "isNewTombstone (fst (Merge_live s ?cs)) (tombID t) (tombVersion t)
             = isNewTombstone s (tombID t) (tombVersion t)"
      by (simp add: isNewTombstone_cell cell_Merge_live)
  qed
  then show ?thesis
    by (simp add: TypeConfigs_Diff_def TypeConfigs_Merge_def split_beta Let_def
                  snd_Merge_live[OF dc] snd_Merge_dead[OF dt])
qed

section \<open>Facts about the store of all types\<close>


lemma snd_getState [simp]: "snd (getState A typ) = state_of A typ"
  by (cases "Types A") (simp_all add: getState_def state_of_def split: option.splits)

lemma state_of_getState [simp]: "state_of (fst (getState A typ)) t = state_of A t"
  by (cases "Types A") (auto simp: getState_def state_of_def update_conv' split: option.splits)

lemma state_of_putState [simp]:
  "state_of (putState A typ s) t = (if t = typ then s else state_of A t)"
  by (cases "Types A") (auto simp: putState_def state_of_def update_conv' split: option.splits)

lemma Configs_Get_state_of: "Configs_Get A typ i = TypeConfigs_Get (state_of A typ) i"
  by (simp add: Configs_Get_def state_of_def TypeConfigs_Get_def split: option.splits)

lemma state_of_Merge_types:
  "distinct (map fst l) \<Longrightarrow>
   state_of (fst (Merge_types A l)) typ =
     (case map_of l typ of
        None \<Rightarrow> state_of A typ
      | Some st \<Rightarrow> fst (TypeConfigs_Merge (state_of A typ) st))"
proof (induction l arbitrary: A)
  case Nil
  show ?case by simp
next
  case (Cons a l)
  obtain t st where a: "a = (t, st)" by (cases a)
  let ?A' = "putState (fst (getState A t)) t (fst (TypeConfigs_Merge (state_of A t) st))"
  have "t \<notin> fst ` set l" using Cons.prems a by simp
  then have none: "map_of l t = None" by (simp add: map_of_eq_None_iff)
  show ?case
    using Cons.IH[of ?A'] Cons.prems a none
    by (auto simp: split_beta Let_def split: option.splits)
qed

lemma snd_Merge_types:
  "distinct (map fst l) \<Longrightarrow>
   snd (Merge_types A l) =
     (concat (map (\<lambda>(typ, st). fst (snd (TypeConfigs_Merge (state_of A typ) st))) l),
      concat (map (\<lambda>(typ, st). snd (snd (TypeConfigs_Merge (state_of A typ) st))) l))"
proof (induction l arbitrary: A)
  case Nil
  show ?case by simp
next
  case (Cons a l)
  obtain t st where a: "a = (t, st)" by (cases a)
  let ?A' = "putState (fst (getState A t)) t (fst (TypeConfigs_Merge (state_of A t) st))"
  have notin: "\<And>x. x \<in> set l \<Longrightarrow> fst x \<noteq> t" using Cons.prems a by (auto simp: image_iff)
  have e1: "map (\<lambda>(typ, st). fst (snd (TypeConfigs_Merge (state_of ?A' typ) st))) l
          = map (\<lambda>(typ, st). fst (snd (TypeConfigs_Merge (state_of A typ) st))) l"
    using notin by (intro map_cong refl) (auto simp: split_beta)
  have e2: "map (\<lambda>(typ, st). snd (snd (TypeConfigs_Merge (state_of ?A' typ) st))) l
          = map (\<lambda>(typ, st). snd (snd (TypeConfigs_Merge (state_of A typ) st))) l"
    using notin by (intro map_cong refl) (auto simp: split_beta)
  have step: "snd (Merge_types A (a # l)) =
      (fst (snd (TypeConfigs_Merge (state_of A t) st)) @ fst (snd (Merge_types ?A' l)),
       snd (snd (TypeConfigs_Merge (state_of A t) st)) @ snd (snd (Merge_types ?A' l)))"
    by (simp add: a split_beta Let_def)
  have ih: "snd (Merge_types ?A' l) =
     (concat (map (\<lambda>(typ, st). fst (snd (TypeConfigs_Merge (state_of ?A' typ) st))) l),
      concat (map (\<lambda>(typ, st). snd (snd (TypeConfigs_Merge (state_of ?A' typ) st))) l))"
    using Cons.prems by (intro Cons.IH) simp
  show ?case
    unfolding step ih e1 e2 by (simp add: a)
qed

lemma state_of_Diff_types [simp]: "state_of (fst (Diff_types A l)) typ = state_of A typ"
proof (induction l arbitrary: A)
  case Nil
  show ?case by simp
next
  case (Cons a l)
  obtain t st where a: "a = (t, st)" by (cases a)
  show ?case using Cons.IH[of "fst (getState A t)"] a by (simp add: split_beta Let_def)
qed

lemma snd_Diff_types:
  "snd (Diff_types A l) =
     (concat (map (\<lambda>(typ, st). fst (TypeConfigs_Diff (state_of A typ) st)) l),
      concat (map (\<lambda>(typ, st). snd (TypeConfigs_Diff (state_of A typ) st)) l))"
proof (induction l arbitrary: A)
  case Nil
  show ?case by simp
next
  case (Cons a l)
  obtain t st where a: "a = (t, st)" by (cases a)
  show ?case using Cons.IH[of "fst (getState A t)"] a by (simp add: split_beta Let_def)
qed

section \<open>Copies and merges of whole stores\<close>


lemma map_of_foldl_update:
  "distinct (map fst al) \<Longrightarrow>
   map_of (foldl (\<lambda>m (k, v). AList.update k (f v) m) acc al) k =
     (case map_of al k of Some v \<Rightarrow> Some (f v) | None \<Rightarrow> map_of acc k)"
proof (induction al arbitrary: acc)
  case Nil
  show ?case by simp
next
  case (Cons a al)
  obtain k0 v0 where a: "a = (k0, v0)" by (cases a)
  have none: "map_of al k0 = None" using Cons.prems a by (simp add: map_of_eq_None_iff)
  have "map_of (foldl (\<lambda>m (k, v). AList.update k (f v) m) (AList.update k0 (f v0) acc) al) k =
     (case map_of al k of Some v \<Rightarrow> Some (f v) | None \<Rightarrow> map_of (AList.update k0 (f v0) acc) k)"
    using Cons.prems by (intro Cons.IH) simp
  then show ?case using a none by (auto simp: update_conv' split: option.splits)
qed

lemma rekey_entries:
  "list_all (\<lambda>(k, v). g v = k) al \<Longrightarrow> map (\<lambda>x. (g x, x)) (map snd al) = al"
  by (induction al) auto

lemma foldl_rekey:
  "foldl (\<lambda>m x. AList.update (g x) x m) acc (map snd al)
   = foldl (\<lambda>m (k, v). AList.update k v m) acc (map (\<lambda>x. (g x, x)) (map snd al))"
  by (induction al arbitrary: acc) simp_all

lemma cell_TypeConfigs_Copy:
  assumes "TypeConfigs_inv s"
  shows "cell (TypeConfigs_Copy s) i = cell s i"
proof -
  have live: "gomap_get (Configs (TypeConfigs_Copy s)) i = gomap_get (Configs s) i"
  proof (cases "Configs s")
    case None
    then show ?thesis by (simp add: TypeConfigs_Copy_def)
  next
    case (Some al)
    then have "distinct (map fst al)" using assms by (simp add: TypeConfigs_inv_def)
    from map_of_foldl_update[OF this, of "\<lambda>v. v" "[]" i] Some show ?thesis
      by (auto simp: TypeConfigs_Copy_def split: option.splits)
  qed
  have dead: "gomap_get (Tombstones (TypeConfigs_Copy s)) i = gomap_get (Tombstones s) i"
  proof (cases "Tombstones s")
    case None
    then show ?thesis by (simp add: TypeConfigs_Copy_def)
  next
    case (Some al)
    then have d: "distinct (map fst al)" and k: "list_all (\<lambda>(k, v). tombID v = k) al"
      using assms by (simp_all add: TypeConfigs_inv_def)
    from map_of_foldl_update[OF d, of "\<lambda>v. v" "[]" i] Some rekey_entries[OF k] show ?thesis
      by (auto simp: TypeConfigs_Copy_def foldl_rekey split: option.splits)
  qed
  show ?thesis by (simp add: cell_def live dead)
qed

lemma state_of_Configs_Copy:
  assumes "distinct (map fst (gomap_entries (Types A)))"
  shows "state_of (Configs_Copy A) typ =
           (case gomap_get (Types A) typ of
              None \<Rightarrow> \<lparr>Configs = None, Tombstones = None\<rparr>
            | Some st \<Rightarrow> TypeConfigs_Copy st)"
proof (cases "Types A")
  case None
  then show ?thesis by (simp add: Configs_Copy_def state_of_def)
next
  case (Some al)
  then have "distinct (map fst al)" using assms by simp
  from map_of_foldl_update[OF this, of TypeConfigs_Copy "[]" "typ"] Some show ?thesis
    by (cases al) (auto simp: Configs_Copy_def state_of_def split: option.splits)
qed

lemma inv_state_of:
  assumes "Configs_inv A"
  shows "TypeConfigs_inv (state_of A typ)"
proof (cases "gomap_get (Types A) typ")
  case None
  then show ?thesis by (simp add: state_of_def TypeConfigs_inv_def)
next
  case (Some st)
  then have "(typ, st) \<in> set (gomap_entries (Types A))"
    by (simp add: gomap_get_entries map_of_SomeD)
  with assms have "TypeConfigs_inv st" by (auto simp: Configs_inv_def list_all_iff)
  with Some show ?thesis by (simp add: state_of_def)
qed

lemma cell_state_of_Copy:
  assumes "Configs_inv A"
  shows "cell (state_of (Configs_Copy A) typ) i = cell (state_of A typ) i"
proof -
  have d: "distinct (map fst (gomap_entries (Types A)))"
    using assms by (simp add: Configs_inv_def)
  show ?thesis
  proof (cases "gomap_get (Types A) typ")
    case None
    then show ?thesis by (simp add: state_of_Configs_Copy[OF d]) (simp add: state_of_def)
  next
    case (Some st)
    then have "state_of A typ = st" by (simp add: state_of_def)
    with inv_state_of[OF assms, of "typ"] have "TypeConfigs_inv st" by simp
    then show ?thesis using Some
      by (simp add: state_of_Configs_Copy[OF d] cell_TypeConfigs_Copy) (simp add: state_of_def)
  qed
qed

lemma cell_merge_empty [simp]: "cell_merge x (None, None) = x"
  by (simp add: cell_merge_def)

lemma cell_empty [simp]: "cell \<lparr>Configs = None, Tombstones = None\<rparr> i = (None, None)"
  by (simp add: cell_def)

lemma cell_Configs_Merge:
  assumes "Configs_inv B"
  shows "cell (state_of (fst (Configs_Merge A B)) typ) i
         = cell_merge (cell (state_of A typ) i) (cell (state_of B typ) i)"
proof -
  have d: "distinct (map fst (gomap_entries (Types B)))"
    using assms by (simp add: Configs_inv_def)
  show ?thesis
  proof (cases "gomap_get (Types B) typ")
    case None
    then show ?thesis
      by (simp add: Configs_Merge_def state_of_Merge_types[OF d] gomap_get_entries)
         (simp add: state_of_def gomap_get_entries)
  next
    case (Some st)
    then have st: "state_of B typ = st" by (simp add: state_of_def)
    with inv_state_of[OF assms, of "typ"] have "TypeConfigs_inv st" by simp
    then show ?thesis using Some st
      by (simp add: Configs_Merge_def state_of_Merge_types[OF d] gomap_get_entries
                    cell_TypeConfigs_Merge)
  qed
qed

lemma Configs_Get_cell: "Configs_Get A typ i = cell_result (cell (state_of A typ) i)"
  by (simp add: Configs_Get_state_of TypeConfigs_Get_cell cell_result_def)

lemma cell_merge_commute:
  assumes "fst x = None \<or> snd x = None" "fst y = None \<or> snd y = None"
  shows "cell_result (cell_merge x y) = cell_result (cell_merge y x)
       \<or> (result_version (cell_result x) = result_version (cell_result y)
          \<and> cell_merge x y = x \<and> cell_merge y x = y)"
  using assms
  by (cases x; cases y)
     (auto simp: cell_merge_def cell_new_def cell_dead_def cell_accepts_config_def
                 cell_accepts_tombstone_def cell_result_def result_version_def Let_def
           split: option.splits)

lemma cell_merge_idem:
  assumes "fst x = None \<or> snd x = None"
  shows "cell_merge x x = x"
  using assms
  by (cases x)
     (auto simp: cell_merge_def cell_new_def cell_dead_def cell_accepts_config_def
                 cell_accepts_tombstone_def Let_def split: option.splits)

section \<open>Single mutations on a store\<close>


lemma cell_Configs_NewConfig:
  "cell (state_of (fst (Configs_NewConfig S c)) typ) i =
     (if typ = Type c \<and> i = ID c then cell_new (cell (state_of S typ) i) c
      else cell (state_of S typ) i)"
  by (simp add: Configs_NewConfig_def split_beta Let_def cell_NewConfig)

lemma cell_Configs_DeadConfig:
  "cell (state_of (fst (Configs_DeadConfig S t)) typ) i =
     (if typ = tombType t \<and> i = tombID t then cell_dead (cell (state_of S typ) i) t
      else cell (state_of S typ) i)"
  by (simp add: Configs_DeadConfig_def split_beta Let_def cell_DeadConfig)

lemma accepts_empty [simp]:
  "cell_accepts_config (None, None) v" "cell_accepts_tombstone (None, None) v"
  by (simp_all add: cell_accepts_config_def cell_accepts_tombstone_def)

lemma resident_state:
  assumes "cell (state_of S typ) i \<noteq> (None, None)"
  shows "\<exists>al. S = \<lparr>Types = Some al\<rparr> \<and> map_of al typ = Some (state_of S typ)"
proof (cases "gomap_get (Types S) typ")
  case None
  with assms show ?thesis by (simp add: state_of_def)
next
  case (Some st)
  then obtain al where "Types S = Some al" by (cases "Types S") simp_all
  with Some show ?thesis by (intro exI[of _ al]) (simp add: state_of_def)
qed

lemma Configs_NewConfig_rejected:
  assumes "\<not> cell_accepts_config (cell (state_of S (Type c)) (ID c)) (Version c)"
  shows "Configs_NewConfig S c = (S, None, False)"
proof -
  from assms have "cell (state_of S (Type c)) (ID c) \<noteq> (None, None)" by auto
  from resident_state[OF this] obtain al where
    S: "S = \<lparr>Types = Some al\<rparr>" and st: "map_of al (Type c) = Some (state_of S (Type c))"
    by blast
  have T: "Types S = Some al" by (subst S) simp
  have "getState S (Type c) = (\<lparr>Types = Some al\<rparr>, state_of S (Type c))"
    using st by (simp add: getState_def T)
  then have g: "getState S (Type c) = (S, state_of S (Type c))"
    using S by simp
  have r: "TypeConfigs_NewConfig (state_of S (Type c)) c = (state_of S (Type c), None, False)"
    using assms by (simp add: NewConfig_rejected isNewConfig_cell)
  have "putState S (Type c) (state_of S (Type c)) = \<lparr>Types = Some al\<rparr>"
    using st by (simp add: putState_def T update_triv)
  then have p: "putState S (Type c) (state_of S (Type c)) = S"
    using S by simp
  show ?thesis by (simp add: Configs_NewConfig_def g r p)
qed

lemma Configs_DeadConfig_rejected:
  assumes "\<not> cell_accepts_tombstone (cell (state_of S (tombType t)) (tombID t)) (tombVersion t)"
  shows "Configs_DeadConfig S t = (S, None, False)"
proof -
  from assms have "cell (state_of S (tombType t)) (tombID t) \<noteq> (None, None)" by auto
  from resident_state[OF this] obtain al where
    S: "S = \<lparr>Types = Some al\<rparr>" and st: "map_of al (tombType t) = Some (state_of S (tombType t))"
    by blast
  have T: "Types S = Some al" by (subst S) simp
  have "getState S (tombType t) = (\<lparr>Types = Some al\<rparr>, state_of S (tombType t))"
    using st by (simp add: getState_def T)
  then have g: "getState S (tombType t) = (S, state_of S (tombType t))"
    using S by simp
  have r: "TypeConfigs_DeadConfig (state_of S (tombType t)) t = (state_of S (tombType t), None, False)"
    using assms by (simp add: DeadConfig_rejected isNewTombstone_cell)
  have "putState S (tombType t) (state_of S (tombType t)) = \<lparr>Types = Some al\<rparr>"
    using st by (simp add: putState_def T update_triv)
  then have p: "putState S (tombType t) (state_of S (tombType t)) = S"
    using S by simp
  show ?thesis by (simp add: Configs_DeadConfig_def g r p)
qed

lemma reject_config_mono:
  assumes "\<not> cell_accepts_config x v"
  shows "\<not> cell_accepts_config (cell_new x c) v" "\<not> cell_accepts_config (cell_dead x t) v"
  using assms
  by (cases x; auto simp: cell_accepts_config_def cell_accepts_tombstone_def cell_new_def
                          cell_dead_def split: option.splits)+

lemma reject_tombstone_mono:
  assumes "\<not> cell_accepts_tombstone x v"
  shows "\<not> cell_accepts_tombstone (cell_new x c) v" "\<not> cell_accepts_tombstone (cell_dead x t) v"
  using assms
  by (cases x; auto simp: cell_accepts_config_def cell_accepts_tombstone_def cell_new_def
                          cell_dead_def split: option.splits)+

lemma reject_after_self:
  "\<not> cell_accepts_config (cell_new x c) (Version c)"
  "\<not> cell_accepts_tombstone (cell_dead x t) (tombVersion t)"
  by (cases x; auto simp: cell_accepts_config_def cell_accepts_tombstone_def cell_new_def
                          cell_dead_def split: option.splits)+

lemma cell_apply_event:
  "cell (state_of (apply_event S ev) typ) i =
     (case ev of
        NewConfigEv c \<Rightarrow>
          if typ = Type c \<and> i = ID c then cell_new (cell (state_of S typ) i) c
          else cell (state_of S typ) i
      | DeadConfigEv t \<Rightarrow>
          if typ = tombType t \<and> i = tombID t then cell_dead (cell (state_of S typ) i) t
          else cell (state_of S typ) i)"
  by (cases ev) (simp_all add: apply_event_def cell_Configs_NewConfig cell_Configs_DeadConfig)

lemma reject_config_events:
  "\<not> cell_accepts_config (cell (state_of S typ) i) v \<Longrightarrow>
   \<not> cell_accepts_config (cell (state_of (foldl apply_event S evs) typ) i) v"
proof (induction evs arbitrary: S)
  case Nil
  then show ?case by simp
next
  case (Cons ev evs)
  have "\<not> cell_accepts_config (cell (state_of (apply_event S ev) typ) i) v"
    using Cons.prems by (cases ev) (auto simp: cell_apply_event reject_config_mono)
  then show ?case using Cons.IH by simp
qed

lemma reject_tombstone_events:
  "\<not> cell_accepts_tombstone (cell (state_of S typ) i) v \<Longrightarrow>
   \<not> cell_accepts_tombstone (cell (state_of (foldl apply_event S evs) typ) i) v"
proof (induction evs arbitrary: S)
  case Nil
  then show ?case by simp
next
  case (Cons ev evs)
  have "\<not> cell_accepts_tombstone (cell (state_of (apply_event S ev) typ) i) v"
    using Cons.prems by (cases ev) (auto simp: cell_apply_event reject_tombstone_mono)
  then show ?case using Cons.IH by simp
qed

lemma reapply_event:
  "event_result (foldl apply_event (apply_event S ev) evs) ev
     = (foldl apply_event (apply_event S ev) evs, None, False)"
proof (cases ev)
  case (NewConfigEv c)
  have "\<not> cell_accepts_config (cell (state_of (apply_event S ev) (Type c)) (ID c)) (Version c)"
    by (simp add: NewConfigEv cell_apply_event reject_after_self)
  from reject_config_events[OF this] show ?thesis
    by (simp add: NewConfigEv Configs_NewConfig_rejected)
next
  case (DeadConfigEv t)
  have "\<not> cell_accepts_tombstone (cell (state_of (apply_event S ev) (tombType t)) (tombID t))
           (tombVersion t)"
    by (simp add: DeadConfigEv cell_apply_event reject_after_self)
  from reject_tombstone_events[OF this] show ?thesis
    by (simp add: DeadConfigEv Configs_DeadConfig_rejected)
qed

lemma Merge_Copy_self_Get:
  assumes "Configs_inv A"
  shows "Configs_Get (fst (Configs_Merge (Configs_Copy A) A)) typ i = Configs_Get A typ i"
  using assms
  by (simp add: Configs_Get_cell cell_Configs_Merge cell_state_of_Copy cell_merge_idem
                inv_state_of inv_cell_single)

lemma version_not_newer_config:
  assumes "case result_version (cell_result x) of None \<Rightarrow> False | Some (k, v) \<Rightarrow> w \<le> v"
  shows "\<not> cell_accepts_config x w"
  using assms
  by (cases x)
     (auto simp: cell_accepts_config_def cell_result_def result_version_def split: option.splits)

lemma version_not_newer_tombstone:
  assumes "case result_version (cell_result x) of
             None \<Rightarrow> False
           | Some (k, v) \<Rightarrow> if k then w < v else w \<le> v"
  shows "\<not> cell_accepts_tombstone x w"
  using assms
  by (cases x)
     (auto simp: cell_accepts_tombstone_def cell_result_def result_version_def split: option.splits)

section \<open>What Diff does to its receiver\<close>


lemma update_fresh: "k \<notin> fst ` set al \<Longrightarrow> AList.update k v al = al @ [(k, v)]"
  by (induction al) auto

lemma entries_getState:
  "gomap_entries (Types (fst (getState A typ))) =
     (if typ \<in> fst ` set (gomap_entries (Types A)) then gomap_entries (Types A)
      else gomap_entries (Types A) @ [(typ, \<lparr>Configs = None, Tombstones = None\<rparr>)])"
proof (cases "map_of (gomap_entries (Types A)) typ")
  case None
  then have "typ \<notin> fst ` set (gomap_entries (Types A))" by (simp add: map_of_eq_None_iff)
  with None show ?thesis
    by (cases "Types A") (simp_all add: getState_def update_fresh)
next
  case (Some st)
  then have "typ \<in> fst ` set (gomap_entries (Types A))"
    by (metis map_of_eq_None_iff option.distinct(1))
  with Some show ?thesis
    by (cases "Types A") (simp_all add: getState_def)
qed

lemma entries_Diff_types:
  "\<exists>new. gomap_entries (Types (fst (Diff_types A l)))
            = gomap_entries (Types A) @ map (\<lambda>t. (t, \<lparr>Configs = None, Tombstones = None\<rparr>)) new"
proof (induction l arbitrary: A)
  case Nil
  show ?case by (intro exI[of _ "[]"]) simp
next
  case (Cons a l)
  obtain t st where a: "a = (t, st)" by (cases a)
  from Cons.IH[of "fst (getState A t)"] obtain new where
    n: "gomap_entries (Types (fst (Diff_types (fst (getState A t)) l)))
         = gomap_entries (Types (fst (getState A t)))
           @ map (\<lambda>t. (t, \<lparr>Configs = None, Tombstones = None\<rparr>)) new"
    by blast
  show ?case
  proof (cases "t \<in> fst ` set (gomap_entries (Types A))")
    case True
    with n show ?thesis
      by (intro exI[of _ new]) (simp add: a split_beta Let_def entries_getState)
  next
    case False
    with n show ?thesis
      by (intro exI[of _ "t # new"]) (simp add: a split_beta Let_def entries_getState)
  qed
qed

lemma Diff_ConfigArray:
  "Configs_ConfigArray (fst (Configs_Diff A other)) = Configs_ConfigArray A"
  "Configs_TombstoneArray (fst (Configs_Diff A other)) = Configs_TombstoneArray A"
proof -
  from entries_Diff_types[of A "gomap_entries (Types other)"] obtain new where
    "gomap_entries (Types (fst (Configs_Diff A other)))
       = gomap_entries (Types A) @ map (\<lambda>t. (t, \<lparr>Configs = None, Tombstones = None\<rparr>)) new"
    unfolding Configs_Diff_def by blast
  then show "Configs_ConfigArray (fst (Configs_Diff A other)) = Configs_ConfigArray A"
    and "Configs_TombstoneArray (fst (Configs_Diff A other)) = Configs_TombstoneArray A"
    by (simp_all add: Configs_ConfigArray_def Configs_TombstoneArray_def gomap_range_entries
                      o_def)
qed

lemma types_getState:
  "gomap_get (Types (fst (getState A typ))) t =
     (case gomap_get (Types A) t of
        Some s \<Rightarrow> Some s
      | None \<Rightarrow> if t = typ then Some \<lparr>Configs = None, Tombstones = None\<rparr> else None)"
  by (cases "Types A") (auto simp: getState_def update_conv' split: option.splits)

lemma types_Diff_types:
  "gomap_get (Types (fst (Diff_types A l))) t =
     (case gomap_get (Types A) t of
        Some s \<Rightarrow> Some s
      | None \<Rightarrow> if t \<in> fst ` set l then Some \<lparr>Configs = None, Tombstones = None\<rparr> else None)"
proof (induction l arbitrary: A)
  case Nil
  show ?case by (simp split: option.splits)
next
  case (Cons a l)
  obtain t0 st where a: "a = (t0, st)" by (cases a)
  show ?case
    using Cons.IH[of "fst (getState A t0)"]
    by (auto simp: a split_beta Let_def types_getState split: option.splits)
qed

text \<open>The tests of \<open>Diff\<close> do not depend on payloads.\<close>

lemma map_of_map_values:
  "map_of (map (\<lambda>(k, v). (k, f v)) al) k = map_option f (map_of al k)"
  by (induction al) auto

lemma gomap_get_strip:
  "gomap_get (Configs (strip_TypeConfigs s)) i = map_option strip_Config (gomap_get (Configs s) i)"
  by (cases "Configs s") (simp_all add: strip_TypeConfigs_def map_of_map_values)

lemma cell_strip:
  "cell (strip_TypeConfigs s) i = (map_option strip_Config (fst (cell s i)), snd (cell s i))"
  by (simp add: cell_def gomap_get_strip) (simp add: strip_TypeConfigs_def)

lemma isNew_strip [simp]:
  "isNewConfig (strip_TypeConfigs s) i v = isNewConfig s i v"
  "isNewTombstone (strip_TypeConfigs s) i v = isNewTombstone s i v"
  by (cases "cell s i";
      auto simp: isNewConfig_cell isNewTombstone_cell cell_strip cell_accepts_config_def
                 cell_accepts_tombstone_def strip_Config_def split: option.splits)+

lemma range_strip:
  "gomap_range (Configs (strip_TypeConfigs s)) = map strip_Config (gomap_range (Configs s))"
  "gomap_range (Tombstones (strip_TypeConfigs s)) = gomap_range (Tombstones s)"
  by (cases "Configs s"; simp add: strip_TypeConfigs_def split_def)+

lemma TypeConfigs_Diff_strip:
  "TypeConfigs_Diff (strip_TypeConfigs s) (strip_TypeConfigs other)
     = (map strip_Config (fst (TypeConfigs_Diff s other)), snd (TypeConfigs_Diff s other))"
  by (simp add: TypeConfigs_Diff_def range_strip filter_map o_def strip_Config_def)

lemma state_of_strip: "state_of (strip_Configs A) typ = strip_TypeConfigs (state_of A typ)"
  by (cases "Types A")
     (auto simp: state_of_def strip_Configs_def map_of_map_values strip_TypeConfigs_def
           split: option.splits)

lemma Configs_Diff_strip:
  "snd (Configs_Diff (strip_Configs A) (strip_Configs other))
     = (map strip_Config (fst (snd (Configs_Diff A other))), snd (snd (Configs_Diff A other)))"
proof -
  have e: "gomap_entries (Types (strip_Configs other))
           = map (\<lambda>(typ, state). (typ, strip_TypeConfigs state)) (gomap_entries (Types other))"
    by (cases "Types other") (simp_all add: strip_Configs_def)
  show ?thesis
    by (simp add: Configs_Diff_def snd_Diff_types e o_def split_def state_of_strip
                  TypeConfigs_Diff_strip map_concat)
qed

text \<open>The records \<open>Diff\<close> returns, by the contents of the two stores.\<close>

lemma accepts_config_version:
  "cell_accepts_config x v \<longleftrightarrow>
     (case result_version (cell_result x) of None \<Rightarrow> True | Some (k, w) \<Rightarrow> w < v)"
  by (cases x)
     (auto simp: cell_accepts_config_def cell_result_def result_version_def split: option.splits)

lemma accepts_tombstone_version:
  "cell_accepts_tombstone x v \<longleftrightarrow>
     (case result_version (cell_result x) of
        None \<Rightarrow> True
      | Some (k, w) \<Rightarrow> if k then w \<le> v else w < v)"
  by (cases x)
     (auto simp: cell_accepts_tombstone_def cell_result_def result_version_def split: option.splits)

lemma keyed_member:
  assumes "distinct (map fst al)" and "list_all (\<lambda>(k, v). f v = k) al"
  shows "x \<in> set (map snd al) \<longleftrightarrow> map_of al (f x) = Some x"
proof
  assume "x \<in> set (map snd al)"
  then obtain k where m: "(k, x) \<in> set al" by auto
  with assms(2) have "f x = k" by (auto simp: list_all_iff)
  with m assms(1) show "map_of al (f x) = Some x" by simp
next
  assume "map_of al (f x) = Some x"
  then have "(f x, x) \<in> set al" by (rule map_of_SomeD)
  then show "x \<in> set (map snd al)" by force
qed

lemma inv_live_member:
  assumes "TypeConfigs_inv st"
  shows "c \<in> set (gomap_range (Configs st)) \<longleftrightarrow> Config (fst (TypeConfigs_Get st (ID c))) = Some c"
proof -
  from assms have "c \<in> set (gomap_range (Configs st)) \<longleftrightarrow> gomap_get (Configs st) (ID c) = Some c"
    using keyed_member[of "gomap_entries (Configs st)" ID c]
    by (simp add: TypeConfigs_inv_def gomap_range_entries gomap_get_entries)
  then show ?thesis
    by (auto simp: TypeConfigs_Get_def split: option.splits)
qed

lemma inv_dead_member:
  assumes "TypeConfigs_inv st"
  shows "t \<in> set (gomap_range (Tombstones st))
           \<longleftrightarrow> Tombstone (fst (TypeConfigs_Get st (tombID t))) = Some t"
proof -
  from assms have m: "t \<in> set (gomap_range (Tombstones st))
                   \<longleftrightarrow> gomap_get (Tombstones st) (tombID t) = Some t"
    using keyed_member[of "gomap_entries (Tombstones st)" tombID t]
    by (simp add: TypeConfigs_inv_def gomap_range_entries gomap_get_entries)
  from inv_cell_single[OF assms, of "tombID t"]
  have "gomap_get (Tombstones st) (tombID t) = Some t
          \<longleftrightarrow> Tombstone (fst (TypeConfigs_Get st (tombID t))) = Some t"
    by (auto simp: TypeConfigs_Get_def cell_def split: option.splits)
  with m show ?thesis by simp
qed

lemma entry_state_of:
  assumes "distinct (map fst (gomap_entries (Types other)))"
  shows "(ty, st) \<in> set (gomap_entries (Types other))
           \<longleftrightarrow> gomap_get (Types other) ty = Some st"
  using assms by (simp add: gomap_get_entries)

lemma Diff_members:
  assumes "Configs_inv other"
  shows "c \<in> set (fst (snd (Configs_Diff A other))) \<longleftrightarrow>
           (\<exists>ty. Config (fst (Configs_Get other ty (ID c))) = Some c
                 \<and> (case result_version (Configs_Get A ty (ID c)) of
                      None \<Rightarrow> True | Some (k, w) \<Rightarrow> w < Version c))"
    and "t \<in> set (snd (snd (Configs_Diff A other))) \<longleftrightarrow>
           (\<exists>ty. Tombstone (fst (Configs_Get other ty (tombID t))) = Some t
                 \<and> (case result_version (Configs_Get A ty (tombID t)) of
                      None \<Rightarrow> True
                    | Some (k, w) \<Rightarrow> if k then w \<le> tombVersion t else w < tombVersion t))"
proof -
  let ?l = "gomap_entries (Types other)"
  have d: "distinct (map fst ?l)" and inv: "\<And>ty st. (ty, st) \<in> set ?l \<Longrightarrow> TypeConfigs_inv st"
    using assms by (auto simp: Configs_inv_def list_all_iff)
  have ent: "(ty, st) \<in> set ?l \<longleftrightarrow> gomap_get (Types other) ty = Some st" for ty st
    using d by (rule entry_state_of)
  have getc: "Config (fst (Configs_Get other ty i)) = Some c
              \<longleftrightarrow> (\<exists>st. (ty, st) \<in> set ?l \<and> Config (fst (TypeConfigs_Get st i)) = Some c)" for ty i
    by (auto simp: ent Configs_Get_def split: option.splits)
  have gett: "Tombstone (fst (Configs_Get other ty i)) = Some t
              \<longleftrightarrow> (\<exists>st. (ty, st) \<in> set ?l \<and> Tombstone (fst (TypeConfigs_Get st i)) = Some t)" for ty i
    by (auto simp: ent Configs_Get_def split: option.splits)
  have accc: "isNewConfig (state_of A ty) i v
              \<longleftrightarrow> (case result_version (Configs_Get A ty i) of
                      None \<Rightarrow> True | Some (k, w) \<Rightarrow> w < v)" for ty i v
    by (simp add: isNewConfig_cell accepts_config_version Configs_Get_cell)
  have acct: "isNewTombstone (state_of A ty) i v
              \<longleftrightarrow> (case result_version (Configs_Get A ty i) of
                      None \<Rightarrow> True | Some (k, w) \<Rightarrow> if k then w \<le> v else w < v)" for ty i v
    by (simp add: isNewTombstone_cell accepts_tombstone_version Configs_Get_cell)
  have "c \<in> set (fst (snd (Configs_Diff A other))) \<longleftrightarrow>
        (\<exists>ty st. (ty, st) \<in> set ?l \<and> c \<in> set (gomap_range (Configs st))
                 \<and> isNewConfig (state_of A ty) (ID c) (Version c))"
    by (auto simp: Configs_Diff_def snd_Diff_types TypeConfigs_Diff_def)
  also have "\<dots> \<longleftrightarrow> (\<exists>ty st. (ty, st) \<in> set ?l \<and> Config (fst (TypeConfigs_Get st (ID c))) = Some c
                 \<and> isNewConfig (state_of A ty) (ID c) (Version c))"
    using inv inv_live_member by blast
  also have "\<dots> \<longleftrightarrow> (\<exists>ty. Config (fst (Configs_Get other ty (ID c))) = Some c
                 \<and> (case result_version (Configs_Get A ty (ID c)) of
                      None \<Rightarrow> True | Some (k, w) \<Rightarrow> w < Version c))"
    unfolding getc accc by blast
  finally show "c \<in> set (fst (snd (Configs_Diff A other))) \<longleftrightarrow>
           (\<exists>ty. Config (fst (Configs_Get other ty (ID c))) = Some c
                 \<and> (case result_version (Configs_Get A ty (ID c)) of
                      None \<Rightarrow> True | Some (k, w) \<Rightarrow> w < Version c))" .
  have "t \<in> set (snd (snd (Configs_Diff A other))) \<longleftrightarrow>
        (\<exists>ty st. (ty, st) \<in> set ?l \<and> t \<in> set (gomap_range (Tombstones st))
                 \<and> isNewTombstone (state_of A ty) (tombID t) (tombVersion t))"
    by (auto simp: Configs_Diff_def snd_Diff_types TypeConfigs_Diff_def)
  also have "\<dots> \<longleftrightarrow> (\<exists>ty st. (ty, st) \<in> set ?l
                 \<and> Tombstone (fst (TypeConfigs_Get st (tombID t))) = Some t
                 \<and> isNewTombstone (state_of A ty) (tombID t) (tombVersion t))"
    using inv inv_dead_member by blast
  also have "\<dots> \<longleftrightarrow> (\<exists>ty. Tombstone (fst (Configs_Get other ty (tombID t))) = Some t
                 \<and> (case result_version (Configs_Get A ty (tombID t)) of
                      None \<Rightarrow> True
                    | Some (k, w) \<Rightarrow> if k then w \<le> tombVersion t else w < tombVersion t))"
    unfolding gett acct by blast
  finally show "t \<in> set (snd (snd (Configs_Diff A other))) \<longleftrightarrow>
           (\<exists>ty. Tombstone (fst (Configs_Get other ty (tombID t))) = Some t
                 \<and> (case result_version (Configs_Get A ty (tombID t)) of
                      None \<Rightarrow> True
                    | Some (k, w) \<Rightarrow> if k then w \<le> tombVersion t else w < tombVersion t))" .
qed

lemma snd_Diff_eq_Merge:
  assumes "Configs_inv other"
  shows "snd (Configs_Diff A other) = snd (Configs_Merge A other)"
proof -
  let ?l = "gomap_entries (Types other)"
  have d: "distinct (map fst ?l)" and inv: "\<And>t st. (t, st) \<in> set ?l \<Longrightarrow> TypeConfigs_inv st"
    using assms by (auto simp: Configs_inv_def list_all_iff)
  have e1: "map (\<lambda>(typ, st). fst (TypeConfigs_Diff (state_of A typ) st)) ?l
          = map (\<lambda>(typ, st). fst (snd (TypeConfigs_Merge (state_of A typ) st))) ?l"
    using inv by (intro map_cong refl) (auto simp: TypeConfigs_Diff_Merge)
  have e2: "map (\<lambda>(typ, st). snd (TypeConfigs_Diff (state_of A typ) st)) ?l
          = map (\<lambda>(typ, st). snd (snd (TypeConfigs_Merge (state_of A typ) st))) ?l"
    using inv by (intro map_cong refl) (auto simp: TypeConfigs_Diff_Merge)
  show ?thesis
    by (simp add: Configs_Diff_def Configs_Merge_def snd_Diff_types snd_Merge_types[OF d] e1 e2)
qed

lemma Configs_Get_Copy:
  assumes "Configs_inv A"
  shows "Configs_Get (Configs_Copy A) ty i = Configs_Get A ty i"
  using assms by (simp add: Configs_Get_cell cell_state_of_Copy)

lemma Merge_Copy_self_nothing:
  assumes "Configs_inv A"
  shows "snd (Configs_Merge (Configs_Copy A) A) = ([], [])"
proof -
  have c: "c \<notin> set (fst (snd (Configs_Diff (Configs_Copy A) A)))" for c
    unfolding Diff_members(1)[OF assms] Configs_Get_Copy[OF assms]
    by (auto simp: result_version_def)
  have t: "t \<notin> set (snd (snd (Configs_Diff (Configs_Copy A) A)))" for t
  proof -
    have "fst (cell (state_of A ty) i) = None" if "Tombstone (fst (Configs_Get A ty i)) = Some t" for ty i
      using that by (cases "cell (state_of A ty) i")
                    (auto simp: Configs_Get_cell cell_result_def split: option.splits)
    then have "Config (fst (Configs_Get A ty i)) = None"
      if "Tombstone (fst (Configs_Get A ty i)) = Some t" for ty i
      using that by (cases "cell (state_of A ty) i")
                    (auto simp: Configs_Get_cell cell_result_def split: option.splits)
    then show ?thesis
      unfolding Diff_members(2)[OF assms] Configs_Get_Copy[OF assms]
      by (auto simp: result_version_def)
  qed
  from c t have "fst (snd (Configs_Diff (Configs_Copy A) A)) = []"
    and "snd (snd (Configs_Diff (Configs_Copy A) A)) = []"
    by (simp_all add: set_empty[symmetric] set_eq_iff del: set_empty)
  then show ?thesis
    unfolding snd_Diff_eq_Merge[OF assms, symmetric] by (simp add: prod_eq_iff)
qed

section \<open>Insertions keep the invariant of a per-type store\<close>








section \<open>Loading lines that are long enough\<close>

text \<open>
  When every complete line has at least 18 bytes, loading returns; a line that fails a
  check is skipped with \<open>loadError\<close> set, and the flag, once set, stays set.
\<close>


lemma loadNewConfig_no_panic: "loadNewConfig cu cs body \<noteq> Panic"
  by (simp add: loadNewConfig_def split: sum.splits)

lemma loadDeadConfig_no_panic: "loadDeadConfig tu cs body \<noteq> Panic"
  by (simp add: loadDeadConfig_def split: sum.splits)

lemma loadLine_no_panic:
  assumes "18 \<le> length line"
  shows "loadLine ChecksumIEEE config_Unmarshal tombstone_Unmarshal cs line \<noteq> Panic"
proof -
  have "\<not> length line < 18" using assms by simp
  then show ?thesis
    unfolding loadLine_def Let_def
    by (simp add: loadNewConfig_no_panic loadDeadConfig_no_panic split: option.splits)
qed

lemma load_lines_total:
  "\<forall>line \<in> set ls. 18 \<le> length line \<Longrightarrow>
   \<exists>db'. load_lines ChecksumIEEE config_Unmarshal tombstone_Unmarshal db ls = Some db'"
proof (induction ls arbitrary: db)
  case Nil
  show ?case by simp
next
  case (Cons l ls)
  have np: "loadLine ChecksumIEEE config_Unmarshal tombstone_Unmarshal (configs db) l \<noteq> Panic"
    using Cons.prems by (intro loadLine_no_panic) simp
  have rest: "\<forall>line \<in> set ls. 18 \<le> length line" using Cons.prems by simp
  show ?case
  proof (cases "loadLine ChecksumIEEE config_Unmarshal tombstone_Unmarshal (configs db) l")
    case Panic
    with np show ?thesis by simp
  next
    case (Failed e)
    with Cons.IH[OF rest, of "db\<lparr>loadError := True\<rparr>"] show ?thesis by simp
  next
    case (Done c)
    with Cons.IH[OF rest, of "db\<lparr>configs := c\<rparr>"] show ?thesis by simp
  qed
qed

lemma load_lines_flag:
  "load_lines ChecksumIEEE config_Unmarshal tombstone_Unmarshal db ls = Some db' \<Longrightarrow>
   loadError db \<Longrightarrow> loadError db'"
proof (induction ls arbitrary: db)
  case Nil
  then show ?case by simp
next
  case (Cons l ls)
  show ?case
  proof (cases "loadLine ChecksumIEEE config_Unmarshal tombstone_Unmarshal (configs db) l")
    case Panic
    with Cons.prems show ?thesis by simp
  next
    case (Failed e)
    with Cons.prems Cons.IH[of "db\<lparr>loadError := True\<rparr>"] show ?thesis by simp
  next
    case (Done c)
    with Cons.prems Cons.IH[of "db\<lparr>configs := c\<rparr>"] show ?thesis by simp
  qed
qed

lemma load_lines_skips:
  assumes "loadLine ChecksumIEEE config_Unmarshal tombstone_Unmarshal (configs db) line = Failed err"
  shows "load_lines ChecksumIEEE config_Unmarshal tombstone_Unmarshal db (line # rest)
         = load_lines ChecksumIEEE config_Unmarshal tombstone_Unmarshal (db\<lparr>loadError := True\<rparr>) rest"
  using assms by simp

section \<open>Calls made by the router state\<close>


lemma state_of_store_value:
  "state_of (store_value h a) typ =
     (case map_of (gomap_entries (stores h a)) typ of
        Some p \<Rightarrow> states h p
      | None \<Rightarrow> \<lparr>Configs = None, Tombstones = None\<rparr>)"
  by (cases "stores h a")
     (simp_all add: state_of_def store_value_def map_of_map_values split: option.splits)

lemma heap_getState_state:
  "states (fst (heap_getState h a typ)) (snd (heap_getState h a typ))
     = state_of (store_value h a) typ"
  by (simp add: heap_getState_def state_of_store_value alloc_state_def Let_def
           split: option.splits)

lemma snd_heap_Configs_NewConfig:
  "snd (heap_Configs_NewConfig h a c) = snd (Configs_NewConfig (store_value h a) c)"
  using heap_getState_state[of h a "Type c"]
  by (simp add: heap_Configs_NewConfig_def Configs_NewConfig_def split_beta Let_def)

lemma snd_heap_Configs_DeadConfig:
  "snd (heap_Configs_DeadConfig h a t) = snd (Configs_DeadConfig (store_value h a) t)"
  using heap_getState_state[of h a "tombType t"]
  by (simp add: heap_Configs_DeadConfig_def Configs_DeadConfig_def split_beta Let_def)

lemma snd_Configs_NewConfig_cell:
  "snd (Configs_NewConfig S c) =
     (if cell_accepts_config (cell (state_of S (Type c)) (ID c)) (Version c)
      then (fst (cell (state_of S (Type c)) (ID c)), True) else (None, False))"
proof (cases "isNewConfig (state_of S (Type c)) (ID c) (Version c)")
  case True
  from NewConfig_accepted(3,4)[OF True] True show ?thesis
    by (simp add: Configs_NewConfig_def split_beta Let_def isNewConfig_cell cell_def prod_eq_iff)
next
  case False
  then show ?thesis
    by (simp add: Configs_NewConfig_def split_beta Let_def isNewConfig_cell NewConfig_rejected)
qed

lemma NewConfig_calls:
  fixes C :: "'d Config"
  assumes "Config (fst (Configs_Get (store_value h (stateConfigs state)) (Type C) (ID C))) = Some old"
    and "Version old < Version C"
  shows "fst (snd (routerState_NewConfig env h state C)) =
           map (\<lambda>handler. Handler_NewConfig handler C)
             (untypedHandlers state @ typed_for (typedHandlers state) (Type C))
           @ concat (map (\<lambda>obj. [State_DeadConfig obj old, State_NewConfig obj C])
               (untypedStates state @ typed_for (typedStates state) (Type C)))"
proof -
  let ?S = "store_value h (stateConfigs state)"
  from assms(1) have c: "fst (cell (state_of ?S (Type C)) (ID C)) = Some old"
    by (cases "cell (state_of ?S (Type C)) (ID C)")
       (auto simp: Configs_Get_cell cell_result_def split: option.splits)
  with assms(2) have acc: "cell_accepts_config (cell (state_of ?S (Type C)) (ID C)) (Version C)"
    by (simp add: cell_accepts_config_def)
  have "snd (heap_Configs_NewConfig h (stateConfigs state) C) = (Some old, True)"
    by (simp add: snd_heap_Configs_NewConfig snd_Configs_NewConfig_cell acc c)
  moreover have "state_new_calls (Some old) C
                   = (\<lambda>obj. [State_DeadConfig obj old, State_NewConfig obj C])"
    by (simp add: fun_eq_iff state_new_calls_def)
  ultimately show ?thesis
    by (simp add: routerState_NewConfig_def split_beta Let_def)
qed

lemma replace_scenario:
  fixes c1 c2 :: "'d Config"
  assumes "AllowedConfigTypes env D = []"
    and "AllowedConfigTypes env (Copy_result env D) = []"
    and "AllowedConfigTypes env (Copy_result env (Copy_result env D)) = []"
    and "Type c2 = Type c1" "ID c2 = ID c1" "Version c1 < Version c2"
  shows "map_option (snd \<circ> snd)
          (router_run env (fst (newRouterState env h None [])) (snd (newRouterState env h None []))
             [(RegisterStateMsg key D, []), (NewConfigMsg c1, []), (NewConfigMsg c2, [])])
         = Some [State_Copy D,
                 State_NewConfig (Copy_result env D) c1,
                 State_Copy (Copy_result env D), 
                 State_DeadConfig (Copy_result env (Copy_result env D)) c1,
                 State_NewConfig (Copy_result env (Copy_result env D)) c2]"
  using assms
  by (simp add: newRouterState_def alloc_store_def process_batch_def routerState_Copy_def
    heap_Configs_Copy_def RegisterState_def registerState_def heap_ConfigArray_def
    Configs_ConfigArray_def store_value_def
    routerState_NewConfig_def heap_Configs_NewConfig_def heap_getState_def alloc_state_def
    TypeConfigs_NewConfig_def isNewConfig_def state_new_calls_def typed_for_def
    heap_TypeConfigs_Copy_def TypeConfigs_Copy_def Let_def)

section \<open>The frame of mutations on an owned store\<close>


lemma frame_refl [simp]: "frame n h h"
  by (simp add: frame_def)











section \<open>The frame of copies, batches and runs\<close>

















section \<open>Stores on the heap and their values\<close>






lemma empty_inv [simp]: "TypeConfigs_inv \<lparr>Configs = None, Tombstones = None\<rparr>"
  by (simp add: TypeConfigs_inv_def)







lemma TypeConfigs_Copy_empty [simp]:
  "TypeConfigs_Copy \<lparr>Configs = None, Tombstones = None\<rparr> = \<lparr>Configs = None, Tombstones = None\<rparr>"
  by (simp add: TypeConfigs_Copy_def)


section \<open>The published store follows the mutations\<close>










section \<open>Accepted tombstones in the store of all types\<close>

lemma snd_Configs_DeadConfig_cell:
  "snd (Configs_DeadConfig S t) =
     (if cell_accepts_tombstone (cell (state_of S (tombType t)) (tombID t)) (tombVersion t)
      then (fst (cell (state_of S (tombType t)) (tombID t)), True) else (None, False))"
proof (cases "isNewTombstone (state_of S (tombType t)) (tombID t) (tombVersion t)")
  case True
  from DeadConfig_accepted(3,4)[OF True] True show ?thesis
    by (simp add: Configs_DeadConfig_def split_beta Let_def isNewTombstone_cell cell_def prod_eq_iff)
next
  case False
  then show ?thesis
    by (simp add: Configs_DeadConfig_def split_beta Let_def isNewTombstone_cell DeadConfig_rejected)
qed

lemma Get_live: "Config (fst (TypeConfigs_Get s i)) = gomap_get (Configs s) i"
  by (simp add: TypeConfigs_Get_def split: option.splits)

lemma Configs_tie_accepted:
  assumes "Config (fst (Configs_Get S (tombType T) (tombID T))) = Some old"
    and "Version old = tombVersion T"
  shows "snd (Configs_DeadConfig S T) = (Some old, True)"
    and "Configs_Get (fst (Configs_DeadConfig S T)) (tombType T) (tombID T)
           = (\<lparr>Config = None, Tombstone = Some T\<rparr>, True)"
proof -
  let ?x = "cell (state_of S (tombType T)) (tombID T)"
  from assms(1) have f: "fst ?x = Some old"
    by (simp add: Configs_Get_state_of Get_live cell_def)
  with assms(2) have acc: "cell_accepts_tombstone ?x (tombVersion T)"
    by (simp add: cell_accepts_tombstone_def)
  show "snd (Configs_DeadConfig S T) = (Some old, True)"
    using acc f by (simp add: snd_Configs_DeadConfig_cell)
  show "Configs_Get (fst (Configs_DeadConfig S T)) (tombType T) (tombID T)
           = (\<lparr>Config = None, Tombstone = Some T\<rparr>, True)"
    using acc by (simp add: Configs_Get_cell cell_Configs_DeadConfig cell_dead_def cell_result_def)
qed

section \<open>Acceptance rules\<close>

text \<open>
  Claim C1. For every per-type store and every incoming record: \<open>NewConfig\<close> accepts the
  config exactly when its \<open>ID\<close> is absent, or the resident config has a strictly
  smaller version, or the resident tombstone has a strictly smaller version;
  \<open>DeadConfig\<close> accepts the tombstone exactly when its \<open>ID\<close> is absent, or the
  resident config has a smaller or equal version, or the resident tombstone has a strictly
  smaller version. The resident entry is the one \<open>Get\<close> returns.

  An accepted config is stored: it is returned together with the live config that was
  resident (none if there was none), afterwards the live map holds it under its \<open>ID\<close>,
  the tombstone map has no entry for that \<open>ID\<close>, \<open>Get\<close> at that \<open>ID\<close> answers with the
  config, and every other \<open>ID\<close> is answered as before. An accepted tombstone is stored in
  the same way, with the two maps exchanged. A rejected record returns the store as it
  was, no old config and \<open>false\<close>.

  In particular a tombstone of version \<open>v\<close> applied to a live config of version \<open>v\<close>
  replaces it and returns it as the old config; a config of version \<open>v\<close> applied to a
  tombstone of version \<open>v\<close> is rejected and the store stays as it was.
\<close>

theorem acceptance_rules:
  fixes S :: "'d TypeConfigs" and C :: "'d Config" and T :: Tombstone
  shows
  "(snd (snd (TypeConfigs_NewConfig S C)) \<longleftrightarrow>
      (\<not> snd (TypeConfigs_Get S (ID C))
       \<or> (\<exists>old. Config (fst (TypeConfigs_Get S (ID C))) = Some old \<and> Version old < Version C)
       \<or> (\<exists>t. Tombstone (fst (TypeConfigs_Get S (ID C))) = Some t \<and> tombVersion t < Version C)))
   \<and> (snd (snd (TypeConfigs_DeadConfig S T)) \<longleftrightarrow>
      (\<not> snd (TypeConfigs_Get S (tombID T))
       \<or> (\<exists>old. Config (fst (TypeConfigs_Get S (tombID T))) = Some old
                 \<and> Version old \<le> tombVersion T)
       \<or> (\<exists>t. Tombstone (fst (TypeConfigs_Get S (tombID T))) = Some t
               \<and> tombVersion t < tombVersion T)))
   \<and> (snd (snd (TypeConfigs_NewConfig S C)) \<longrightarrow>
         fst (snd (TypeConfigs_NewConfig S C)) = Config (fst (TypeConfigs_Get S (ID C)))
         \<and> gomap_get (Configs (fst (TypeConfigs_NewConfig S C)))
             = (gomap_get (Configs S))(ID C \<mapsto> C)
         \<and> gomap_get (Tombstones (fst (TypeConfigs_NewConfig S C)))
             = (gomap_get (Tombstones S))(ID C := None)
         \<and> TypeConfigs_Get (fst (TypeConfigs_NewConfig S C)) (ID C)
             = (\<lparr>Config = Some C, Tombstone = None\<rparr>, True)
         \<and> (\<forall>i. i \<noteq> ID C \<longrightarrow>
               TypeConfigs_Get (fst (TypeConfigs_NewConfig S C)) i = TypeConfigs_Get S i))
   \<and> (\<not> snd (snd (TypeConfigs_NewConfig S C)) \<longrightarrow>
         TypeConfigs_NewConfig S C = (S, None, False))
   \<and> (snd (snd (TypeConfigs_DeadConfig S T)) \<longrightarrow>
         fst (snd (TypeConfigs_DeadConfig S T)) = Config (fst (TypeConfigs_Get S (tombID T)))
         \<and> gomap_get (Configs (fst (TypeConfigs_DeadConfig S T)))
             = (gomap_get (Configs S))(tombID T := None)
         \<and> gomap_get (Tombstones (fst (TypeConfigs_DeadConfig S T)))
             = (gomap_get (Tombstones S))(tombID T \<mapsto> T)
         \<and> TypeConfigs_Get (fst (TypeConfigs_DeadConfig S T)) (tombID T)
             = (\<lparr>Config = None, Tombstone = Some T\<rparr>, True)
         \<and> (\<forall>i. i \<noteq> tombID T \<longrightarrow>
               TypeConfigs_Get (fst (TypeConfigs_DeadConfig S T)) i = TypeConfigs_Get S i))
   \<and> (\<not> snd (snd (TypeConfigs_DeadConfig S T)) \<longrightarrow>
         TypeConfigs_DeadConfig S T = (S, None, False))
   \<and> (\<forall>old. Config (fst (TypeConfigs_Get S (tombID T))) = Some old
             \<and> Version old = tombVersion T \<longrightarrow>
         snd (TypeConfigs_DeadConfig S T) = (Some old, True)
         \<and> TypeConfigs_Get (fst (TypeConfigs_DeadConfig S T)) (tombID T)
             = (\<lparr>Config = None, Tombstone = Some T\<rparr>, True))
   \<and> (\<forall>t. Tombstone (fst (TypeConfigs_Get S (ID C))) = Some t \<and> tombVersion t = Version C \<longrightarrow>
         TypeConfigs_NewConfig S C = (S, None, False))"
proof -
  have 1: "snd (snd (TypeConfigs_NewConfig S C)) \<longleftrightarrow>
      (\<not> snd (TypeConfigs_Get S (ID C))
       \<or> (\<exists>old. Config (fst (TypeConfigs_Get S (ID C))) = Some old \<and> Version old < Version C)
       \<or> (\<exists>t. Tombstone (fst (TypeConfigs_Get S (ID C))) = Some t \<and> tombVersion t < Version C))"
    unfolding NewConfig_isNew
    by (simp add: isNewConfig_def TypeConfigs_Get_def split: option.splits)
  have 2: "snd (snd (TypeConfigs_DeadConfig S T)) \<longleftrightarrow>
      (\<not> snd (TypeConfigs_Get S (tombID T))
       \<or> (\<exists>old. Config (fst (TypeConfigs_Get S (tombID T))) = Some old
                 \<and> Version old \<le> tombVersion T)
       \<or> (\<exists>t. Tombstone (fst (TypeConfigs_Get S (tombID T))) = Some t
               \<and> tombVersion t < tombVersion T))"
    unfolding DeadConfig_isNew
    by (simp add: isNewTombstone_def TypeConfigs_Get_def split: option.splits)
  have 3: "snd (snd (TypeConfigs_NewConfig S C)) \<longrightarrow>
         fst (snd (TypeConfigs_NewConfig S C)) = Config (fst (TypeConfigs_Get S (ID C)))
         \<and> gomap_get (Configs (fst (TypeConfigs_NewConfig S C)))
             = (gomap_get (Configs S))(ID C \<mapsto> C)
         \<and> gomap_get (Tombstones (fst (TypeConfigs_NewConfig S C)))
             = (gomap_get (Tombstones S))(ID C := None)
         \<and> TypeConfigs_Get (fst (TypeConfigs_NewConfig S C)) (ID C)
             = (\<lparr>Config = Some C, Tombstone = None\<rparr>, True)
         \<and> (\<forall>i. i \<noteq> ID C \<longrightarrow>
               TypeConfigs_Get (fst (TypeConfigs_NewConfig S C)) i = TypeConfigs_Get S i)"
  proof
    assume "snd (snd (TypeConfigs_NewConfig S C))"
    then have acc: "isNewConfig S (ID C) (Version C)"
      by (simp add: NewConfig_isNew)
    note a = NewConfig_accepted[OF acc]
    show "fst (snd (TypeConfigs_NewConfig S C)) = Config (fst (TypeConfigs_Get S (ID C)))
         \<and> gomap_get (Configs (fst (TypeConfigs_NewConfig S C)))
             = (gomap_get (Configs S))(ID C \<mapsto> C)
         \<and> gomap_get (Tombstones (fst (TypeConfigs_NewConfig S C)))
             = (gomap_get (Tombstones S))(ID C := None)
         \<and> TypeConfigs_Get (fst (TypeConfigs_NewConfig S C)) (ID C)
             = (\<lparr>Config = Some C, Tombstone = None\<rparr>, True)
         \<and> (\<forall>i. i \<noteq> ID C \<longrightarrow>
               TypeConfigs_Get (fst (TypeConfigs_NewConfig S C)) i = TypeConfigs_Get S i)"
      by (auto simp: a(1,2,3) TypeConfigs_Get_def split: option.splits)
  qed
  have 4: "\<not> snd (snd (TypeConfigs_NewConfig S C)) \<longrightarrow>
         TypeConfigs_NewConfig S C = (S, None, False)"
    by (simp add: NewConfig_isNew NewConfig_rejected)
  have 5: "snd (snd (TypeConfigs_DeadConfig S T)) \<longrightarrow>
         fst (snd (TypeConfigs_DeadConfig S T)) = Config (fst (TypeConfigs_Get S (tombID T)))
         \<and> gomap_get (Configs (fst (TypeConfigs_DeadConfig S T)))
             = (gomap_get (Configs S))(tombID T := None)
         \<and> gomap_get (Tombstones (fst (TypeConfigs_DeadConfig S T)))
             = (gomap_get (Tombstones S))(tombID T \<mapsto> T)
         \<and> TypeConfigs_Get (fst (TypeConfigs_DeadConfig S T)) (tombID T)
             = (\<lparr>Config = None, Tombstone = Some T\<rparr>, True)
         \<and> (\<forall>i. i \<noteq> tombID T \<longrightarrow>
               TypeConfigs_Get (fst (TypeConfigs_DeadConfig S T)) i = TypeConfigs_Get S i)"
  proof
    assume "snd (snd (TypeConfigs_DeadConfig S T))"
    then have acc: "isNewTombstone S (tombID T) (tombVersion T)"
      by (simp add: DeadConfig_isNew)
    note a = DeadConfig_accepted[OF acc]
    show "fst (snd (TypeConfigs_DeadConfig S T)) = Config (fst (TypeConfigs_Get S (tombID T)))
         \<and> gomap_get (Configs (fst (TypeConfigs_DeadConfig S T)))
             = (gomap_get (Configs S))(tombID T := None)
         \<and> gomap_get (Tombstones (fst (TypeConfigs_DeadConfig S T)))
             = (gomap_get (Tombstones S))(tombID T \<mapsto> T)
         \<and> TypeConfigs_Get (fst (TypeConfigs_DeadConfig S T)) (tombID T)
             = (\<lparr>Config = None, Tombstone = Some T\<rparr>, True)
         \<and> (\<forall>i. i \<noteq> tombID T \<longrightarrow>
               TypeConfigs_Get (fst (TypeConfigs_DeadConfig S T)) i = TypeConfigs_Get S i)"
      by (auto simp: a(1,2,3) TypeConfigs_Get_def split: option.splits)
  qed
  have 6: "\<not> snd (snd (TypeConfigs_DeadConfig S T)) \<longrightarrow>
         TypeConfigs_DeadConfig S T = (S, None, False)"
    by (simp add: DeadConfig_isNew DeadConfig_rejected)
  have 7: "\<forall>old. Config (fst (TypeConfigs_Get S (tombID T))) = Some old
             \<and> Version old = tombVersion T \<longrightarrow>
         snd (TypeConfigs_DeadConfig S T) = (Some old, True)
         \<and> TypeConfigs_Get (fst (TypeConfigs_DeadConfig S T)) (tombID T)
             = (\<lparr>Config = None, Tombstone = Some T\<rparr>, True)"
  proof (intro allI impI)
    fix old
    assume h: "Config (fst (TypeConfigs_Get S (tombID T))) = Some old \<and> Version old = tombVersion T"
    then have resident: "gomap_get (Configs S) (tombID T) = Some old"
      by (simp add: Get_live)
    with h have acc: "isNewTombstone S (tombID T) (tombVersion T)"
      by (simp add: isNewTombstone_def)
    have a: "snd (TypeConfigs_DeadConfig S T) = (Some old, True)"
      using DeadConfig_accepted(3,4)[OF acc] resident by (simp add: prod_eq_iff)
    have b: "TypeConfigs_Get (fst (TypeConfigs_DeadConfig S T)) (tombID T)
             = (\<lparr>Config = None, Tombstone = Some T\<rparr>, True)"
      using DeadConfig_accepted(1,2)[OF acc] by (simp add: TypeConfigs_Get_def)
    from a b show "snd (TypeConfigs_DeadConfig S T) = (Some old, True)
         \<and> TypeConfigs_Get (fst (TypeConfigs_DeadConfig S T)) (tombID T)
             = (\<lparr>Config = None, Tombstone = Some T\<rparr>, True)" by (intro conjI)
  qed
  have 8: "\<forall>t. Tombstone (fst (TypeConfigs_Get S (ID C))) = Some t \<and> tombVersion t = Version C \<longrightarrow>
         TypeConfigs_NewConfig S C = (S, None, False)"
  proof (intro allI impI)
    fix t
    assume h: "Tombstone (fst (TypeConfigs_Get S (ID C))) = Some t \<and> tombVersion t = Version C"
    then have "\<not> isNewConfig S (ID C) (Version C)"
      by (auto simp: TypeConfigs_Get_def isNewConfig_def split: option.splits)
    then show "TypeConfigs_NewConfig S C = (S, None, False)"
      by (rule NewConfig_rejected)
  qed
  from 1 2 3 4 5 6 7 8 show ?thesis by (intro conjI)
qed

theorem acceptance_rules_witness:
  "snd (TypeConfigs_DeadConfig store1 (tomb ''t'' ''a'' 2)) = (Some (cfg ''t'' ''a'' 2 ''x''), True)
   \<and> TypeConfigs_Get (fst (TypeConfigs_DeadConfig store1 (tomb ''t'' ''a'' 2))) ''a''
       = (\<lparr>Config = None, Tombstone = Some (tomb ''t'' ''a'' 2)\<rparr>, True)
   \<and> TypeConfigs_Get (fst (TypeConfigs_DeadConfig store1 (tomb ''t'' ''a'' 2))) ''b''
       = (\<lparr>Config = None, Tombstone = Some (tomb ''t'' ''b'' 2)\<rparr>, True)
   \<and> TypeConfigs_NewConfig store1 (cfg ''t'' ''b'' 2 ''y'') = (store1, None, False)
   \<and> snd (TypeConfigs_NewConfig store1 (cfg ''t'' ''a'' 3 ''z''))
       = (Some (cfg ''t'' ''a'' 2 ''x''), True)
   \<and> TypeConfigs_Get (fst (TypeConfigs_NewConfig store1 (cfg ''t'' ''a'' 3 ''z''))) ''a''
       = (\<lparr>Config = Some (cfg ''t'' ''a'' 3 ''z''), Tombstone = None\<rparr>, True)
   \<and> snd (TypeConfigs_NewConfig store1 (cfg ''t'' ''b'' 3 ''z'')) = (None, True)
   \<and> TypeConfigs_Get (fst (TypeConfigs_NewConfig store1 (cfg ''t'' ''b'' 3 ''z''))) ''b''
       = (\<lparr>Config = Some (cfg ''t'' ''b'' 3 ''z''), Tombstone = None\<rparr>, True)"
  using acceptance_rules[of store1 "cfg ''t'' ''b'' 2 ''y''" "tomb ''t'' ''a'' 2"]
        acceptance_rules[of store1 "cfg ''t'' ''a'' 3 ''z''" "tomb ''t'' ''a'' 2"]
        acceptance_rules[of store1 "cfg ''t'' ''b'' 3 ''z''" "tomb ''t'' ''a'' 2"]
  by (simp add: store1_def TypeConfigs_Get_def cfg_def tomb_def prod_eq_iff)

section \<open>Merging two stores in either order\<close>

text \<open>
  Claim C2 says that \<open>copy(A).merge(B)\<close> and \<open>copy(B).merge(A)\<close> hold identical entries.
  That fails when both stores hold a live config for the same identity at the same
  version with different payloads: a config is accepted only over a strictly smaller
  version, so each merge keeps the config of its own receiver.
\<close>

theorem Merge_payload_tie_counterexample:
  "Configs_Get (fst (Configs_Merge (Configs_Copy storeX) storeY)) ''t'' ''a''
     \<noteq> Configs_Get (fst (Configs_Merge (Configs_Copy storeY) storeX)) ''t'' ''a''"
  by code_simp

text \<open>
  Claim C2, amended. For any two stores that satisfy the data invariant and any type and
  \<open>ID\<close>, \<open>copy(A).merge(B)\<close> and \<open>copy(B).merge(A)\<close> return the same entry, unless \<open>A\<close> and
  \<open>B\<close> hold entries of the same kind and the same version for that identity; in that
  case each merge keeps the entry of its receiver, so both results still have the same
  kind and version.
\<close>

theorem Merge_commutes:
  assumes "Configs_inv A" and "Configs_inv B"
  shows "Configs_Get (fst (Configs_Merge (Configs_Copy A) B)) typ i
           = Configs_Get (fst (Configs_Merge (Configs_Copy B) A)) typ i
       \<or> (result_version (Configs_Get A typ i) = result_version (Configs_Get B typ i)
          \<and> Configs_Get (fst (Configs_Merge (Configs_Copy A) B)) typ i = Configs_Get A typ i
          \<and> Configs_Get (fst (Configs_Merge (Configs_Copy B) A)) typ i = Configs_Get B typ i)"
proof -
  let ?x = "cell (state_of A typ) i" and ?y = "cell (state_of B typ) i"
  have x: "fst ?x = None \<or> snd ?x = None" and y: "fst ?y = None \<or> snd ?y = None"
    using assms by (simp_all add: inv_state_of inv_cell_single)
  have ab: "Configs_Get (fst (Configs_Merge (Configs_Copy A) B)) typ i
              = cell_result (cell_merge ?x ?y)"
    by (simp add: Configs_Get_cell cell_Configs_Merge[OF assms(2)] cell_state_of_Copy[OF assms(1)])
  have ba: "Configs_Get (fst (Configs_Merge (Configs_Copy B) A)) typ i
              = cell_result (cell_merge ?y ?x)"
    by (simp add: Configs_Get_cell cell_Configs_Merge[OF assms(1)] cell_state_of_Copy[OF assms(2)])
  have a: "Configs_Get A typ i = cell_result ?x" and b: "Configs_Get B typ i = cell_result ?y"
    by (simp_all add: Configs_Get_cell)
  from cell_merge_commute[OF x y] show ?thesis
    unfolding ab ba a b by auto
qed

theorem Merge_commutes_witness:
  "Configs_inv storeA \<and> Configs_inv storeB
   \<and> Configs_Get (fst (Configs_Merge (Configs_Copy storeA) storeB)) ''t'' ''a''
       = (\<lparr>Config = None, Tombstone = Some (tomb ''t'' ''a'' 1)\<rparr>, True)
   \<and> Configs_Get (fst (Configs_Merge (Configs_Copy storeB) storeA)) ''t'' ''a''
       = (\<lparr>Config = None, Tombstone = Some (tomb ''t'' ''a'' 1)\<rparr>, True)"
proof -
  have inv: "Configs_inv storeA" "Configs_inv storeB"
    by (simp_all add: storeA_def storeB_def Configs_inv_def TypeConfigs_inv_def cfg_def tomb_def)
  have ab: "Configs_Get (fst (Configs_Merge (Configs_Copy storeA) storeB)) ''t'' ''a''
       = (\<lparr>Config = None, Tombstone = Some (tomb ''t'' ''a'' 1)\<rparr>, True)"
    by code_simp
  have ver: "result_version (Configs_Get storeA ''t'' ''a'')
               \<noteq> result_version (Configs_Get storeB ''t'' ''a'')"
    by code_simp
  from Merge_commutes[OF inv, of "''t''" "''a''"] ab ver inv show ?thesis
    by simp
qed

section \<open>Diff as a preview of Merge\<close>

text \<open>
  Claim C5 says that for every store \<open>A\<close> and every store \<open>other\<close>, \<open>A.Diff(other)\<close>
  returns the configs and tombstones that \<open>A.Merge(other)\<close> would accept. \<open>Diff\<close> tests
  every entry of \<open>other\<close> against the receiver as it is, while \<open>Merge\<close> inserts as it
  goes, the live configs first. When \<open>other\<close> holds an \<open>ID\<close> both live and as a
  tombstone, in a type where the receiver has nothing, \<open>Diff\<close> returns the config and
  the tombstone; \<open>Merge\<close> accepts the config and then tests the tombstone against it,
  so a tombstone of a smaller version is rejected.
\<close>

theorem Diff_both_maps_counterexample:
  "snd (Configs_Diff storeNone storeLive2Dead1)
     = ([cfg ''t'' ''a'' 2 ''x''], [tomb ''t'' ''a'' 1])
   \<and> snd (Configs_Merge storeNone storeLive2Dead1) = ([cfg ''t'' ''a'' 2 ''x''], [])"
  by code_simp

text \<open>
  Claim C5, amended. For every store \<open>A\<close> and every store \<open>other\<close>, \<open>A.Diff(other)\<close>
  leaves the answer of \<open>Get\<close> on \<open>A\<close> unchanged for every type and \<open>ID\<close>. When \<open>other\<close>
  satisfies the data invariant (every entry is stored under its own \<open>ID\<close>, and no \<open>ID\<close>
  is both in the live map and in the tombstone map of a type), \<open>A.Diff(other)\<close> returns
  the configs and the tombstones that \<open>A.Merge(other)\<close> reports as accepted (the same two
  lists when both calls range over \<open>other\<close> in the same order). Which records these are
  depends on the contents of the two stores only, not on any order: a config is among
  them exactly when \<open>other\<close> holds it live under some type and \<open>A\<close> has there no entry
  or an entry of a smaller version; a tombstone exactly when \<open>other\<close> holds it under some
  type and \<open>A\<close> has there no entry, a config of a smaller or equal version, or a
  tombstone of a smaller version.
\<close>

theorem Diff_previews_Merge:
  fixes A other :: "'d Configs"
  shows "(\<forall>typ i. Configs_Get (fst (Configs_Diff A other)) typ i = Configs_Get A typ i)
       \<and> (Configs_inv other \<longrightarrow>
            snd (Configs_Diff A other) = snd (Configs_Merge A other)
          \<and> (\<forall>c. c \<in> set (fst (snd (Configs_Merge A other))) \<longleftrightarrow>
              (\<exists>typ. Config (fst (Configs_Get other typ (ID c))) = Some c
                    \<and> (case result_version (Configs_Get A typ (ID c)) of
                         None \<Rightarrow> True | Some (k, w) \<Rightarrow> w < Version c)))
          \<and> (\<forall>t. t \<in> set (snd (snd (Configs_Merge A other))) \<longleftrightarrow>
              (\<exists>typ. Tombstone (fst (Configs_Get other typ (tombID t))) = Some t
                    \<and> (case result_version (Configs_Get A typ (tombID t)) of
                         None \<Rightarrow> True
                       | Some (k, w) \<Rightarrow> if k then w \<le> tombVersion t else w < tombVersion t))))"
proof -
  have 1: "\<forall>typ i. Configs_Get (fst (Configs_Diff A other)) typ i = Configs_Get A typ i"
    by (simp add: Configs_Diff_def Configs_Get_state_of)
  have rest: "snd (Configs_Diff A other) = snd (Configs_Merge A other)
          \<and> (\<forall>c. c \<in> set (fst (snd (Configs_Merge A other))) \<longleftrightarrow>
              (\<exists>typ. Config (fst (Configs_Get other typ (ID c))) = Some c
                    \<and> (case result_version (Configs_Get A typ (ID c)) of
                         None \<Rightarrow> True | Some (k, w) \<Rightarrow> w < Version c)))
          \<and> (\<forall>t. t \<in> set (snd (snd (Configs_Merge A other))) \<longleftrightarrow>
              (\<exists>typ. Tombstone (fst (Configs_Get other typ (tombID t))) = Some t
                    \<and> (case result_version (Configs_Get A typ (tombID t)) of
                         None \<Rightarrow> True
                       | Some (k, w) \<Rightarrow> if k then w \<le> tombVersion t else w < tombVersion t)))"
    if other: "Configs_inv other"
  proof -
    let ?l = "gomap_entries (Types other)"
    have d: "distinct (map fst ?l)" and inv: "\<And>t st. (t, st) \<in> set ?l \<Longrightarrow> TypeConfigs_inv st"
      using other by (auto simp: Configs_inv_def list_all_iff)
    have e1: "map (\<lambda>(typ, st). fst (TypeConfigs_Diff (state_of A typ) st)) ?l
            = map (\<lambda>(typ, st). fst (snd (TypeConfigs_Merge (state_of A typ) st))) ?l"
      using inv by (intro map_cong refl) (auto simp: TypeConfigs_Diff_Merge)
    have e2: "map (\<lambda>(typ, st). snd (TypeConfigs_Diff (state_of A typ) st)) ?l
            = map (\<lambda>(typ, st). snd (snd (TypeConfigs_Merge (state_of A typ) st))) ?l"
      using inv by (intro map_cong refl) (auto simp: TypeConfigs_Diff_Merge)
    have 2: "snd (Configs_Diff A other) = snd (Configs_Merge A other)"
      by (simp add: Configs_Diff_def Configs_Merge_def snd_Diff_types snd_Merge_types[OF d] e1 e2)
    have 3: "\<forall>c. c \<in> set (fst (snd (Configs_Merge A other))) \<longleftrightarrow>
                (\<exists>typ. Config (fst (Configs_Get other typ (ID c))) = Some c
                      \<and> (case result_version (Configs_Get A typ (ID c)) of
                           None \<Rightarrow> True | Some (k, w) \<Rightarrow> w < Version c))"
      unfolding 2[symmetric] using Diff_members(1)[OF other] by blast
    have 4: "\<forall>t. t \<in> set (snd (snd (Configs_Merge A other))) \<longleftrightarrow>
                (\<exists>typ. Tombstone (fst (Configs_Get other typ (tombID t))) = Some t
                      \<and> (case result_version (Configs_Get A typ (tombID t)) of
                           None \<Rightarrow> True
                         | Some (k, w) \<Rightarrow> if k then w \<le> tombVersion t else w < tombVersion t))"
      unfolding 2[symmetric] using Diff_members(2)[OF other] by blast
    from 2 3 4 show ?thesis by (intro conjI)
  qed
  show ?thesis
    by (rule conjI, rule 1, rule impI, erule rest)
qed

theorem Diff_previews_Merge_witness:
  "Configs_inv storeB
   \<and> snd (Configs_Diff storeA storeB) = ([cfg ''u'' ''c'' 7 ''z''], [tomb ''t'' ''a'' 1])
   \<and> snd (Configs_Merge storeA storeB) = ([cfg ''u'' ''c'' 7 ''z''], [tomb ''t'' ''a'' 1])
   \<and> Configs_Get (fst (Configs_Diff storeA storeB)) ''t'' ''a''
       = (\<lparr>Config = Some (cfg ''t'' ''a'' 1 ''x''), Tombstone = None\<rparr>, True)"
proof -
  have inv: "Configs_inv storeB"
    by (simp add: storeB_def Configs_inv_def TypeConfigs_inv_def cfg_def tomb_def)
  have d: "snd (Configs_Diff storeA storeB) = ([cfg ''u'' ''c'' 7 ''z''], [tomb ''t'' ''a'' 1])"
    by code_simp
  have g: "Configs_Get storeA ''t'' ''a''
       = (\<lparr>Config = Some (cfg ''t'' ''a'' 1 ''x''), Tombstone = None\<rparr>, True)"
    by code_simp
  note T = Diff_previews_Merge[of storeA storeB]
  from T[THEN conjunct2, THEN mp, OF inv, THEN conjunct1]
       T[THEN conjunct1, rule_format, of "''t''" "''a''"] d g inv
  show ?thesis by simp
qed

section \<open>Idempotence\<close>

text \<open>
  Claim C3 says that for every store \<open>A\<close>, \<open>copy(A).merge(A)\<close> leaves contents equal to
  \<open>A\<close>, and that a config or tombstone whose version is the same as or lower than the
  resident entry's leaves the store unchanged. A tombstone is accepted over a live config
  of the same version: in \<open>storeA\<close> the resident entry of \<open>a\<close> is a live config of version
  1, and the tombstone of version 1 replaces it. And in a store that holds an \<open>ID\<close> both
  live (version 5) and as a tombstone (version 9), merging the store into its copy
  accepts the tombstone over the copied config, so the copy answers \<open>Get\<close> with the
  tombstone where the store answers with the config.
\<close>

theorem Idempotence_counterexample:
  "Configs_Get storeA ''t'' ''a''
     = (\<lparr>Config = Some (cfg ''t'' ''a'' 1 ''x''), Tombstone = None\<rparr>, True)
   \<and> snd (Configs_DeadConfig storeA (tomb ''t'' ''a'' 1)) = (Some (cfg ''t'' ''a'' 1 ''x''), True)
   \<and> Configs_Get (fst (Configs_DeadConfig storeA (tomb ''t'' ''a'' 1))) ''t'' ''a''
       = (\<lparr>Config = None, Tombstone = Some (tomb ''t'' ''a'' 1)\<rparr>, True)
   \<and> Configs_Get storeLive5Dead9 ''t'' ''a''
       = (\<lparr>Config = Some (cfg ''t'' ''a'' 5 ''x''), Tombstone = None\<rparr>, True)
   \<and> Configs_Get (fst (Configs_Merge (Configs_Copy storeLive5Dead9) storeLive5Dead9)) ''t'' ''a''
       = (\<lparr>Config = None, Tombstone = Some (tomb ''t'' ''a'' 9)\<rparr>, True)"
  by code_simp

text \<open>
  Claim C3, amended. For every store \<open>A\<close> that satisfies the data invariant (every entry
  is stored under its own \<open>ID\<close>, and no \<open>ID\<close> is both in the live map and in the tombstone
  map of a type), \<open>copy(A).merge(A)\<close> answers every \<open>Get\<close> as \<open>A\<close> does and reports no
  record as accepted. For every store, applying a mutation again, after it has been
  applied and after any further mutations, is rejected and leaves the store exactly as it
  was. A config whose version is the same as or lower than the version of the resident
  entry is rejected and leaves the store unchanged, and so is a tombstone whose version
  is the same as or lower than the resident tombstone's, or strictly lower than the
  resident config's. A tombstone whose version is the same as the resident config's is
  accepted: it replaces the config, which is returned as the old config.
\<close>

theorem Merge_idempotent:
  fixes A :: "'d Configs"
  shows "(Configs_inv A \<longrightarrow>
            (\<forall>typ i. Configs_Get (fst (Configs_Merge (Configs_Copy A) A)) typ i
                        = Configs_Get A typ i)
          \<and> snd (Configs_Merge (Configs_Copy A) A) = ([], []))
       \<and> (\<forall>(S :: 'd Configs) ev evs.
            event_result (foldl apply_event (apply_event S ev) evs) ev
              = (foldl apply_event (apply_event S ev) evs, None, False))
       \<and> (\<forall>(S :: 'd Configs) C.
            (case result_version (Configs_Get S (Type C) (ID C)) of
               None \<Rightarrow> False
             | Some (k, v) \<Rightarrow> Version C \<le> v)
            \<longrightarrow> Configs_NewConfig S C = (S, None, False))
       \<and> (\<forall>(S :: 'd Configs) T.
            (case result_version (Configs_Get S (tombType T) (tombID T)) of
               None \<Rightarrow> False
             | Some (k, v) \<Rightarrow> if k then tombVersion T < v else tombVersion T \<le> v)
            \<longrightarrow> Configs_DeadConfig S T = (S, None, False))
       \<and> (\<forall>(S :: 'd Configs) T old.
            Config (fst (Configs_Get S (tombType T) (tombID T))) = Some old
            \<and> Version old = tombVersion T
            \<longrightarrow> snd (Configs_DeadConfig S T) = (Some old, True)
                \<and> Configs_Get (fst (Configs_DeadConfig S T)) (tombType T) (tombID T)
                    = (\<lparr>Config = None, Tombstone = Some T\<rparr>, True))"
proof -
  have 1: "Configs_inv A \<longrightarrow>
            (\<forall>typ i. Configs_Get (fst (Configs_Merge (Configs_Copy A) A)) typ i
                        = Configs_Get A typ i)
          \<and> snd (Configs_Merge (Configs_Copy A) A) = ([], [])"
    by (simp add: Merge_Copy_self_Get Merge_Copy_self_nothing)
  have 2: "\<forall>(S :: 'd Configs) ev evs.
            event_result (foldl apply_event (apply_event S ev) evs) ev
              = (foldl apply_event (apply_event S ev) evs, None, False)"
    by (simp add: reapply_event)
  have 3: "\<forall>(S :: 'd Configs) C.
            (case result_version (Configs_Get S (Type C) (ID C)) of
               None \<Rightarrow> False
             | Some (k, v) \<Rightarrow> Version C \<le> v)
            \<longrightarrow> Configs_NewConfig S C = (S, None, False)"
  proof (intro allI impI)
    fix S :: "'d Configs" and C :: "'d Config"
    assume "case result_version (Configs_Get S (Type C) (ID C)) of
               None \<Rightarrow> False
             | Some (k, v) \<Rightarrow> Version C \<le> v"
    then show "Configs_NewConfig S C = (S, None, False)"
      unfolding Configs_Get_cell
      by (intro Configs_NewConfig_rejected version_not_newer_config)
  qed
  have 4: "\<forall>(S :: 'd Configs) T.
            (case result_version (Configs_Get S (tombType T) (tombID T)) of
               None \<Rightarrow> False
             | Some (k, v) \<Rightarrow> if k then tombVersion T < v else tombVersion T \<le> v)
            \<longrightarrow> Configs_DeadConfig S T = (S, None, False)"
  proof (intro allI impI)
    fix S :: "'d Configs" and T :: Tombstone
    assume "case result_version (Configs_Get S (tombType T) (tombID T)) of
               None \<Rightarrow> False
             | Some (k, v) \<Rightarrow> if k then tombVersion T < v else tombVersion T \<le> v"
    then show "Configs_DeadConfig S T = (S, None, False)"
      unfolding Configs_Get_cell
      by (intro Configs_DeadConfig_rejected version_not_newer_tombstone)
  qed
  have 5: "\<forall>(S :: 'd Configs) T old.
            Config (fst (Configs_Get S (tombType T) (tombID T))) = Some old
            \<and> Version old = tombVersion T
            \<longrightarrow> snd (Configs_DeadConfig S T) = (Some old, True)
                \<and> Configs_Get (fst (Configs_DeadConfig S T)) (tombType T) (tombID T)
                    = (\<lparr>Config = None, Tombstone = Some T\<rparr>, True)"
  proof (intro allI impI)
    fix S :: "'d Configs" and T :: Tombstone and old :: "'d Config"
    assume h: "Config (fst (Configs_Get S (tombType T) (tombID T))) = Some old
               \<and> Version old = tombVersion T"
    then have a: "Config (fst (Configs_Get S (tombType T) (tombID T))) = Some old"
      and b: "Version old = tombVersion T"
      by simp_all
    from Configs_tie_accepted[OF a b]
    show "snd (Configs_DeadConfig S T) = (Some old, True)
          \<and> Configs_Get (fst (Configs_DeadConfig S T)) (tombType T) (tombID T)
              = (\<lparr>Config = None, Tombstone = Some T\<rparr>, True)"
      by (intro conjI)
  qed
  from 1 2 3 4 5 show ?thesis by (intro conjI)
qed

theorem Merge_idempotent_witness:
  "Configs_inv storeA
   \<and> Configs_Get (fst (Configs_Merge (Configs_Copy storeA) storeA)) ''t'' ''a''
       = (\<lparr>Config = Some (cfg ''t'' ''a'' 1 ''x''), Tombstone = None\<rparr>, True)
   \<and> Configs_NewConfig storeA (cfg ''t'' ''b'' 2 ''y'') = (storeA, None, False)
   \<and> Configs_DeadConfig storeA (tomb ''t'' ''a'' 0) = (storeA, None, False)
   \<and> snd (Configs_DeadConfig storeA (tomb ''t'' ''a'' 1)) = (Some (cfg ''t'' ''a'' 1 ''x''), True)"
proof -
  have inv: "Configs_inv storeA"
    by (simp add: storeA_def Configs_inv_def TypeConfigs_inv_def cfg_def tomb_def)
  note T = Merge_idempotent[of storeA]
  have g: "Configs_Get storeA ''t'' ''a'' = (\<lparr>Config = Some (cfg ''t'' ''a'' 1 ''x''), Tombstone = None\<rparr>, True)"
    by code_simp
  have 1: "Configs_Get (fst (Configs_Merge (Configs_Copy storeA) storeA)) ''t'' ''a''
       = (\<lparr>Config = Some (cfg ''t'' ''a'' 1 ''x''), Tombstone = None\<rparr>, True)"
    using T[THEN conjunct1, THEN mp, OF inv, THEN conjunct1, rule_format, of "''t''" "''a''"] g
    by simp
  have h2: "case result_version (Configs_Get storeA (Type (cfg ''t'' ''b'' 2 ''y'')) (ID (cfg ''t'' ''b'' 2 ''y''))) of
               None \<Rightarrow> False
             | Some (k, v) \<Rightarrow> Version (cfg ''t'' ''b'' 2 ''y'') \<le> v"
    by code_simp
  have 2: "Configs_NewConfig storeA (cfg ''t'' ''b'' 2 ''y'') = (storeA, None, False)"
    using T[THEN conjunct2, THEN conjunct2, THEN conjunct1, rule_format, OF h2] .
  have h3: "case result_version (Configs_Get storeA (tombType (tomb ''t'' ''a'' 0)) (tombID (tomb ''t'' ''a'' 0))) of
               None \<Rightarrow> False
             | Some (k, v) \<Rightarrow> if k then tombVersion (tomb ''t'' ''a'' 0) < v else tombVersion (tomb ''t'' ''a'' 0) \<le> v"
    by code_simp
  have 3: "Configs_DeadConfig storeA (tomb ''t'' ''a'' 0) = (storeA, None, False)"
    using T[THEN conjunct2, THEN conjunct2, THEN conjunct2, THEN conjunct1, rule_format, OF h3] .
  have h4: "Config (fst (Configs_Get storeA (tombType (tomb ''t'' ''a'' 1)) (tombID (tomb ''t'' ''a'' 1))))
              = Some (cfg ''t'' ''a'' 1 ''x'')
            \<and> Version (cfg ''t'' ''a'' 1 ''x'') = tombVersion (tomb ''t'' ''a'' 1)"
    by code_simp
  have 4: "snd (Configs_DeadConfig storeA (tomb ''t'' ''a'' 1)) = (Some (cfg ''t'' ''a'' 1 ''x''), True)"
    using T[THEN conjunct2, THEN conjunct2, THEN conjunct2, THEN conjunct2, rule_format, OF h4,
            THEN conjunct1] .
  from inv 1 2 3 4 show ?thesis by simp
qed

section \<open>The frame of Diff\<close>

text \<open>
  Claim C10. For all stores \<open>A\<close> and \<open>other\<close>, \<open>A.Diff(other)\<close> leaves the answer of
  \<open>Get\<close> unchanged for every type and \<open>ID\<close>; the type map of \<open>A\<close> keeps every per-type
  store it had, unchanged, and gains exactly one empty per-type store for each type of
  \<open>other\<close> that \<open>A\<close> did not have; the configs and the tombstones enumerated from \<open>A\<close>
  are the same before and after; and the two returned lists do not depend on payloads:
  on the stores with every \<open>Data\<close> field removed, \<open>Diff\<close> returns the same tombstones and
  the same configs with their payloads removed.
\<close>

theorem Diff_frame:
  "(\<forall>typ i. Configs_Get (fst (Configs_Diff A other)) typ i = Configs_Get A typ i)
   \<and> (\<forall>typ. gomap_get (Types (fst (Configs_Diff A other))) typ =
        (case gomap_get (Types A) typ of
           Some state \<Rightarrow> Some state
         | None \<Rightarrow>
             if typ \<in> fst ` set (gomap_entries (Types other))
             then Some \<lparr>Configs = None, Tombstones = None\<rparr> else None))
   \<and> mset (Configs_ConfigArray (fst (Configs_Diff A other))) = mset (Configs_ConfigArray A)
   \<and> mset (Configs_TombstoneArray (fst (Configs_Diff A other))) = mset (Configs_TombstoneArray A)
   \<and> snd (Configs_Diff (strip_Configs A) (strip_Configs other))
       = (map strip_Config (fst (snd (Configs_Diff A other))), snd (snd (Configs_Diff A other)))"
  by (simp add: Configs_Get_state_of Configs_Diff_def[symmetric] Diff_ConfigArray Configs_Diff_strip)
     (simp add: Configs_Diff_def types_Diff_types)

theorem Diff_frame_witness:
  "gomap_get (Types storeA) ''u'' = None
   \<and> gomap_get (Types (fst (Configs_Diff storeA storeB))) ''u''
       = Some \<lparr>Configs = None, Tombstones = None\<rparr>
   \<and> Configs_Get (fst (Configs_Diff storeA storeB)) ''u'' ''c''
       = (\<lparr>Config = None, Tombstone = None\<rparr>, False)"
proof -
  have a: "gomap_get (Types storeA) ''u'' = None" by code_simp
  have b: "''u'' \<in> fst ` set (gomap_entries (Types storeB))" by (simp add: storeB_def)
  have c: "Configs_Get storeA ''u'' ''c'' = (\<lparr>Config = None, Tombstone = None\<rparr>, False)"
    by code_simp
  note T = Diff_frame[of storeA storeB]
  from T[THEN conjunct1, rule_format, of "''u''" "''c''"]
       T[THEN conjunct2, THEN conjunct1, rule_format, of "''u''"] a b c
  show ?thesis by simp
qed

section \<open>The single-state invariant and the wire form\<close>

text \<open>
  Claim C4 says that every store-producing operation yields a store in which an \<open>ID\<close>
  is in at most one of the two maps, deserialization included. \<open>NewConfig\<close> and
  \<open>DeadConfig\<close> do keep the invariant (\<open>NewConfig_inv\<close>, \<open>DeadConfig_inv\<close> above).
  \<open>UnmarshalJSON\<close> refuses an \<open>ID\<close> that is twice among the live configs or twice among
  the tombstones, but does not compare the two arrays: a wire form that lists the same
  \<open>ID\<close> once in \<open>live\<close> and once in \<open>dead\<close> is accepted and yields a store with that
  \<open>ID\<close> in both maps.
\<close>

theorem UnmarshalJSON_live_and_dead:
  "TypeConfigs_UnmarshalJSON
      (\<lambda>body. Inr \<lparr>live = [cfg ''t'' ''a'' 1 ''x''], dead = [tomb ''t'' ''a'' 1]\<rparr>) body
     = Inr \<lparr>Configs = Some [(''a'', cfg ''t'' ''a'' 1 ''x'')],
            Tombstones = Some [(''a'', tomb ''t'' ''a'' 1)]\<rparr>
   \<and> \<not> TypeConfigs_inv \<lparr>Configs = Some [(''a'', cfg ''t'' ''a'' 1 ''x'')],
                          Tombstones = Some [(''a'', tomb ''t'' ''a'' 1)]\<rparr>
   \<and> cell \<lparr>Configs = Some [(''a'', cfg ''t'' ''a'' 1 ''x'')],
            Tombstones = Some [(''a'', tomb ''t'' ''a'' 1)]\<rparr> ''a''
       = (Some (cfg ''t'' ''a'' 1 ''x''), Some (tomb ''t'' ''a'' 1))"
  by (simp add: TypeConfigs_UnmarshalJSON_def TypeConfigs_inv_def cell_def cfg_def tomb_def)

section \<open>Deserializing a config\<close>


text \<open>
  Claim C9 says that deserializing a config fails whenever its type name is not
  registered. Without a \<open>data\<close> field the registry is never consulted: the config is
  returned with the payload the receiver had (none for the fresh receiver used here).
\<close>

theorem UnmarshalJSON_unregistered_counterexample:
  "Config_UnmarshalJSON
     (\<lambda>body. Inr \<lparr>jsonType = ''ghost'', jsonID = ''x'', jsonVersion = 1, jsonData = None\<rparr>)
     (Map.empty :: string \<rightharpoonup> nat) (\<lambda>typ. ''zero'') (\<lambda>raw obj. Inr raw)
     \<lparr>Type = [], ID = [], Version = 0, Data = None\<rparr> ''body''
   = Inr \<lparr>Type = ''ghost'', ID = ''x'', Version = 1, Data = None\<rparr>"
  by (simp add: Config_UnmarshalJSON_def)

text \<open>
  Claim C9, amended. Deserializing a config whose wire form carries a \<open>data\<close> field fails
  with the unknown-type error whenever the type name is not registered, and when it
  succeeds the payload is the object the registry created for that type, filled from the
  data. A wire form without a \<open>data\<close> field deserializes successfully whether or not the
  type is registered, and leaves the payload of the receiver as it was.
\<close>

theorem UnmarshalJSON_registry:
  assumes "json_Unmarshal body = Inr cj"
  shows "(\<forall>raw. jsonData cj = Some raw \<and> typeRegistry (jsonType cj) = None \<longrightarrow>
            Config_UnmarshalJSON json_Unmarshal typeRegistry new_value payload_Unmarshal config body
              = Inl (UnknownConfigType (jsonType cj)))
       \<and> (\<forall>raw result. jsonData cj = Some raw \<and>
            Config_UnmarshalJSON json_Unmarshal typeRegistry new_value payload_Unmarshal config body
              = Inr result \<longrightarrow>
            (\<exists>typ obj. typeRegistry (jsonType cj) = Some typ
                \<and> payload_Unmarshal raw (new_value typ) = Inr obj
                \<and> result = \<lparr>Type = jsonType cj, ID = jsonID cj, Version = jsonVersion cj,
                             Data = Some obj\<rparr>))
       \<and> (jsonData cj = None \<longrightarrow>
            Config_UnmarshalJSON json_Unmarshal typeRegistry new_value payload_Unmarshal config body
              = Inr \<lparr>Type = jsonType cj, ID = jsonID cj, Version = jsonVersion cj,
                     Data = Data config\<rparr>)"
  using assms
  by (auto simp: Config_UnmarshalJSON_def registry_NewConfig_def Let_def
           split: option.splits sum.splits)

theorem UnmarshalJSON_registry_witness:
  "Config_UnmarshalJSON
     (\<lambda>body. Inr \<lparr>jsonType = ''ghost'', jsonID = ''x'', jsonVersion = 1, jsonData = Some ''{}''\<rparr>)
     [''test'' \<mapsto> (0::nat)] (\<lambda>typ. ''zero'') (\<lambda>raw obj. Inr raw)
     \<lparr>Type = [], ID = [], Version = 0, Data = None\<rparr> ''body''
   = Inl (UnknownConfigType ''ghost'')"
  using UnmarshalJSON_registry[of
     "\<lambda>body. Inr \<lparr>jsonType = ''ghost'', jsonID = ''x'', jsonVersion = 1, jsonData = Some ''{}''\<rparr>"
     "''body''" "\<lparr>jsonType = ''ghost'', jsonID = ''x'', jsonVersion = 1, jsonData = Some ''{}''\<rparr>"
     "[''test'' \<mapsto> (0::nat)]" "\<lambda>typ. ''zero''" "\<lambda>raw obj. Inr raw"
     "\<lparr>Type = [], ID = [], Version = 0, Data = None\<rparr>"]
  by simp

section \<open>Loading a file with a short line\<close>

text \<open>
  Claim C8 says that loading is total and that every corrupted line, a line too short
  included, is skipped with the corrupted flag set. A line of fewer than 18 bytes is not
  skipped: \<open>loadLine\<close> slices it before any check and the process panics, whatever the
  checksum function and the decoders are. The file here is the single line \<open>short\<close>
  followed by a newline.
\<close>

theorem Load_short_line_panics:
  "AOFConfigDB_Load ChecksumIEEE config_Unmarshal tombstone_Unmarshal (''short'' @ [CHR 0x0A]) = None"
  by (simp add: AOFConfigDB_Load_def load_def loadLine_def)

section \<open>Replacing a config notifies dead, then new\<close>

text \<open>
  Claim C7. When the store of a router state holds a live config \<open>old\<close> for the type and
  \<open>ID\<close> of \<open>C\<close> at a smaller version, \<open>NewConfig(C)\<close> on the router state calls the
  handlers (untyped, then those of the type of \<open>C\<close>) and then, for every configurable
  object routed for \<open>C\<close>, the untyped ones first and the typed ones after, \<open>DeadConfig(old)\<close>
  followed by \<open>NewConfig(C)\<close>; these are all the calls it makes. And on a router that
  starts with an empty store and no handlers, registering an untyped object \<open>D\<close> and then
  sending \<open>c1\<close> and a newer \<open>c2\<close> for the same identity makes, besides the \<open>Copy\<close> calls of
  the three state copies, exactly the calls \<open>NewConfig(c1)\<close>, \<open>DeadConfig(c1)\<close>,
  \<open>NewConfig(c2)\<close>, each on the copy of \<open>D\<close> that is current.
\<close>

theorem NewConfig_dead_then_new:
  fixes C old c1 c2 :: "'d Config"
  shows
  "(Config (fst (Configs_Get (store_value h (stateConfigs state)) (Type C) (ID C))) = Some old
      \<and> Version old < Version C \<longrightarrow>
    fst (snd (routerState_NewConfig env h state C)) =
      map (\<lambda>handler. Handler_NewConfig handler C)
        (untypedHandlers state @ typed_for (typedHandlers state) (Type C))
      @ concat (map (\<lambda>obj. [State_DeadConfig obj old, State_NewConfig obj C])
          (untypedStates state @ typed_for (typedStates state) (Type C))))
   \<and> (AllowedConfigTypes env D = []
       \<and> AllowedConfigTypes env (Copy_result env D) = []
       \<and> AllowedConfigTypes env (Copy_result env (Copy_result env D)) = []
       \<and> Type c2 = Type c1 \<and> ID c2 = ID c1 \<and> Version c1 < Version c2 \<longrightarrow>
      map_option (snd \<circ> snd)
        (router_run env (fst (newRouterState env h0 None [])) (snd (newRouterState env h0 None []))
           [(RegisterStateMsg key D, []), (NewConfigMsg c1, []), (NewConfigMsg c2, [])])
      = Some [State_Copy D,
              State_NewConfig (Copy_result env D) c1,
              State_Copy (Copy_result env D),
              State_DeadConfig (Copy_result env (Copy_result env D)) c1,
              State_NewConfig (Copy_result env (Copy_result env D)) c2])"
  using NewConfig_calls[of h state C old env] replace_scenario[of env D c2 c1 h0 key]
  by blast

theorem NewConfig_dead_then_new_witness:
  "fst (snd (routerState_NewConfig env0 heap0 rstate0 (cfg ''t'' ''a'' 2 ''y''))) =
     [Handler_NewConfig 1 (cfg ''t'' ''a'' 2 ''y''), Handler_NewConfig 2 (cfg ''t'' ''a'' 2 ''y''),
      State_DeadConfig 7 (cfg ''t'' ''a'' 1 ''x''), State_NewConfig 7 (cfg ''t'' ''a'' 2 ''y''),
      State_DeadConfig 8 (cfg ''t'' ''a'' 1 ''x''), State_NewConfig 8 (cfg ''t'' ''a'' 2 ''y'')]
   \<and> map_option (snd \<circ> snd)
        (router_run env0 (fst (newRouterState env0 heap0 None []))
           (snd (newRouterState env0 heap0 None []))
           [(RegisterStateMsg ''D'' 7, []), (NewConfigMsg (cfg ''t'' ''a'' 1 ''x''), []),
            (NewConfigMsg (cfg ''t'' ''a'' 2 ''y''), [])])
      = Some [State_Copy 7, State_NewConfig 7 (cfg ''t'' ''a'' 1 ''x''), State_Copy 7,
              State_DeadConfig 7 (cfg ''t'' ''a'' 1 ''x''), State_NewConfig 7 (cfg ''t'' ''a'' 2 ''y'')]"
proof -
  have g: "Config (fst (Configs_Get (store_value heap0 (stateConfigs rstate0))
             (Type (cfg ''t'' ''a'' 2 ''y'')) (ID (cfg ''t'' ''a'' 2 ''y''))))
           = Some (cfg ''t'' ''a'' 1 ''x'')"
    by (simp add: heap0_def rstate0_def store_value_def Configs_Get_def TypeConfigs_Get_def cfg_def)
  have v: "Version (cfg ''t'' ''a'' 1 ''x'') < Version (cfg ''t'' ''a'' 2 ''y'')"
    by (simp add: cfg_def)
  have e: "AllowedConfigTypes env0 7 = []" "Copy_result env0 7 = 7"
    by (simp_all add: env0_def)
  note T = NewConfig_dead_then_new[of heap0 rstate0 "cfg ''t'' ''a'' 2 ''y''" "cfg ''t'' ''a'' 1 ''x''"
              env0 7 "cfg ''t'' ''a'' 2 ''y''" "cfg ''t'' ''a'' 1 ''x''" heap0 "''D''"]
  from T[THEN conjunct1, rule_format, OF conjI[OF g v]]
  have 1: "fst (snd (routerState_NewConfig env0 heap0 rstate0 (cfg ''t'' ''a'' 2 ''y''))) =
     [Handler_NewConfig 1 (cfg ''t'' ''a'' 2 ''y''), Handler_NewConfig 2 (cfg ''t'' ''a'' 2 ''y''),
      State_DeadConfig 7 (cfg ''t'' ''a'' 1 ''x''), State_NewConfig 7 (cfg ''t'' ''a'' 2 ''y''),
      State_DeadConfig 8 (cfg ''t'' ''a'' 1 ''x''), State_NewConfig 8 (cfg ''t'' ''a'' 2 ''y'')]"
    by (simp add: rstate0_def typed_for_def cfg_def)
  have h: "AllowedConfigTypes env0 7 = []
       \<and> AllowedConfigTypes env0 (Copy_result env0 7) = []
       \<and> AllowedConfigTypes env0 (Copy_result env0 (Copy_result env0 7)) = []
       \<and> Type (cfg ''t'' ''a'' 2 ''y'') = Type (cfg ''t'' ''a'' 1 ''x'')
       \<and> ID (cfg ''t'' ''a'' 2 ''y'') = ID (cfg ''t'' ''a'' 1 ''x'')
       \<and> Version (cfg ''t'' ''a'' 1 ''x'') < Version (cfg ''t'' ''a'' 2 ''y'')"
    by (simp add: e cfg_def)
  from T[THEN conjunct2, rule_format, OF h] 1 show ?thesis
    by (simp add: e)
qed

section \<open>Snapshots stay as they were\<close>



end
